theory Spec2Isabelle
  imports Main "HOL-Library.Char_ord"
begin

section \<open>The Go library functions that dependencies.go calls\<close>

text \<open>
  A Go string is a sequence of bytes, and so is \<^typ>\<open>string\<close>. The functions of the
  packages strings, path, bufio and net/url that the manifest code calls are written out
  here, each after its Go implementation, restricted to the arguments the program passes
  (a one-byte separator, the scanner's default line splitting, a request URI).
\<close>

subsection \<open>strings\<close>

text \<open>\<open>strings.Split(s, sep)\<close> for a one-byte separator: one more field than separators.\<close>

fun strings_Split :: "string \<Rightarrow> char \<Rightarrow> string list" where
  "strings_Split [] sep = [[]]"
| "strings_Split (c # cs) sep =
     (if c = sep then [] # strings_Split cs sep
      else (case strings_Split cs sep of
              [] \<Rightarrow> [[c]]
            | f # fs \<Rightarrow> (c # f) # fs))"

definition strings_HasPrefix :: "string \<Rightarrow> string \<Rightarrow> bool" where
  "strings_HasPrefix s p = (take (length p) s = p)"

definition strings_HasSuffix :: "string \<Rightarrow> string \<Rightarrow> bool" where
  "strings_HasSuffix s x = (length x \<le> length s \<and> drop (length s - length x) s = x)"

definition strings_TrimSuffix :: "string \<Rightarrow> string \<Rightarrow> string" where
  "strings_TrimSuffix s x =
     (if strings_HasSuffix s x then take (length s - length x) s else s)"

text \<open>\<open>strings.Replace(s, old, new, -1)\<close> for one-byte \<open>old\<close> and \<open>new\<close>.\<close>

definition strings_Replace :: "string \<Rightarrow> char \<Rightarrow> char \<Rightarrow> string" where
  "strings_Replace s old new = map (\<lambda>c. if c = old then new else c) s"

text \<open>\<open>strings.Cut(s, sep)\<close> for a one-byte separator; all of \<open>s\<close> when it is absent.\<close>

definition strings_Cut :: "string \<Rightarrow> char \<Rightarrow> string \<times> string" where
  "strings_Cut s sep =
     (takeWhile (\<lambda>c. c \<noteq> sep) s, drop 1 (dropWhile (\<lambda>c. c \<noteq> sep) s))"

subsection \<open>path\<close>

text \<open>
  \<open>path.Base\<close>: \<open>"."\<close> for the empty path; trailing slashes go, then everything up to the
  last slash; \<open>"/"\<close> when nothing is left.
\<close>

definition path_Base :: "string \<Rightarrow> string" where
  "path_Base p =
     (if p = [] then ''.''
      else
        let stripped = rev (dropWhile (\<lambda>c. c = CHR ''/'') (rev p));
            element = rev (takeWhile (\<lambda>c. c \<noteq> CHR ''/'') (rev stripped))
        in if element = [] then ''/'' else element)"

text \<open>\<open>path.Ext\<close>: from the last dot of the final slash-separated element, or empty.\<close>

definition path_Ext :: "string \<Rightarrow> string" where
  "path_Ext p =
     (let element = takeWhile (\<lambda>c. c \<noteq> CHR ''/'') (rev p)
      in if CHR ''.'' \<in> set element
         then CHR ''.'' # rev (takeWhile (\<lambda>c. c \<noteq> CHR ''.'') element)
         else [])"

text \<open>
  \<open>path.Clean\<close>, by its four rules: empty and \<open>.\<close> elements go; \<open>..\<close> removes the
  element before it, is dropped at the root, and is kept at the start of a relative path.
\<close>

fun clean_elements :: "bool \<Rightarrow> string list \<Rightarrow> string list \<Rightarrow> string list" where
  "clean_elements rooted [] out = out"
| "clean_elements rooted (e # es) out =
     (if e = [] \<or> e = ''.'' then clean_elements rooted es out
      else if e = ''..'' then
        (if out \<noteq> [] \<and> last out \<noteq> ''..'' then clean_elements rooted es (butlast out)
         else if rooted then clean_elements rooted es out
         else clean_elements rooted es (out @ [''..'']))
      else clean_elements rooted es (out @ [e]))"

fun join_elements :: "string list \<Rightarrow> string" where
  "join_elements [] = []"
| "join_elements [e] = e"
| "join_elements (e # es) = e @ CHR ''/'' # join_elements es"

definition path_Clean :: "string \<Rightarrow> string" where
  "path_Clean p =
     (if p = [] then ''.''
      else
        let rooted = strings_HasPrefix p ''/'';
            body = join_elements (clean_elements rooted (strings_Split p (CHR ''/'')) [])
        in if rooted then CHR ''/'' # body
           else if body = [] then ''.'' else body)"

text \<open>\<open>path.Join(a, b)\<close> with a non-empty first element, as the program calls it.\<close>

definition path_Join :: "string \<Rightarrow> string \<Rightarrow> string" where
  "path_Join a b = path_Clean (a @ CHR ''/'' # b)"

text \<open>\<open>filepath.Dir\<close> on a slash-separated system: clean what precedes the last element.\<close>

definition filepath_Dir :: "string \<Rightarrow> string" where
  "filepath_Dir p = path_Clean (rev (dropWhile (\<lambda>c. c \<noteq> CHR ''/'') (rev p)))"

subsection \<open>bufio.Scanner with the default split function ScanLines\<close>

definition MaxScanTokenSize :: nat where
  "MaxScanTokenSize = 64 * 1024"

definition dropCR :: "string \<Rightarrow> string" where
  "dropCR data = (if data \<noteq> [] \<and> last data = CHR 0x0D then butlast data else data)"

text \<open>
  The pieces between newlines are the tokens, each without one trailing carriage return;
  an empty piece after the last newline is no token. A piece that fills the scanner's
  buffer (\<^const>\<open>MaxScanTokenSize\<close> bytes with no newline among them) ends the scan with
  \<open>ErrTooLong\<close>: the flag of the result.
\<close>

fun scan_pieces :: "string list \<Rightarrow> string list \<times> bool" where
  "scan_pieces [] = ([], False)"
| "scan_pieces [p] =
     (if p = [] then ([], False)
      else if MaxScanTokenSize \<le> length p then ([], True)
      else ([dropCR p], False))"
| "scan_pieces (p # ps) =
     (if MaxScanTokenSize \<le> length p then ([], True)
      else (case scan_pieces ps of (tokens, too_long) \<Rightarrow> (dropCR p # tokens, too_long)))"

definition Scanner_lines :: "string \<Rightarrow> string list \<times> bool" where
  "Scanner_lines content = scan_pieces (strings_Split content (CHR 0x0A))"

subsection \<open>net/url: ParseRequestURI\<close>

text \<open>
  The program keeps the parsed URL only to test it against nil and to read its \<open>Path\<close>.
  The record has the fields that \<open>parse\<close> sets before the authority; the user and host
  are validated as \<open>parseAuthority\<close> does (a rejected authority makes the result nil) but
  not stored.
\<close>

record url =
  Scheme :: string
  Opaque :: string
  Path :: string
  RawQuery :: string
  ForceQuery :: bool

definition stringContainsCTLByte :: "string \<Rightarrow> bool" where
  "stringContainsCTLByte s = list_ex (\<lambda>b. b < CHR 0x20 \<or> b = CHR 0x7F) s"

text \<open>The byte \<open>c\<close> lies between two bytes, both included.\<close>

definition byte_within :: "char \<Rightarrow> char \<Rightarrow> char \<Rightarrow> bool" where
  "byte_within lo hi c = (lo \<le> c \<and> c \<le> hi)"

definition is_digit :: "char \<Rightarrow> bool" where
  "is_digit c = byte_within (CHR ''0'') (CHR ''9'') c"

definition is_alpha :: "char \<Rightarrow> bool" where
  "is_alpha c = (byte_within (CHR ''a'') (CHR ''z'') c \<or> byte_within (CHR ''A'') (CHR ''Z'') c)"

text \<open>
  \<open>getScheme\<close>: \<open>None\<close> is the error "missing protocol scheme"; otherwise the scheme (empty
  when there is none) and the rest. \<open>pre\<close> is the part of \<open>rawURL\<close> already read.
\<close>

fun getScheme_from :: "string \<Rightarrow> string \<Rightarrow> string \<Rightarrow> (string \<times> string) option" where
  "getScheme_from rawURL pre [] = Some ([], rawURL)"
| "getScheme_from rawURL pre (c # cs) =
     (if is_alpha c then getScheme_from rawURL (pre @ [c]) cs
      else if is_digit c \<or> c = CHR ''+'' \<or> c = CHR ''-'' \<or> c = CHR ''.'' then
        (if pre = [] then Some ([], rawURL) else getScheme_from rawURL (pre @ [c]) cs)
      else if c = CHR '':'' then
        (if pre = [] then None else Some (pre, cs))
      else Some ([], rawURL))"

definition getScheme :: "string \<Rightarrow> (string \<times> string) option" where
  "getScheme rawURL = getScheme_from rawURL [] rawURL"

definition toLower :: "char \<Rightarrow> char" where
  "toLower c =
     (if byte_within (CHR ''A'') (CHR ''Z'') c then char_of (of_char c + (32::nat)) else c)"

definition ishex :: "char \<Rightarrow> bool" where
  "ishex c =
     (is_digit c \<or> byte_within (CHR ''a'') (CHR ''f'') c \<or> byte_within (CHR ''A'') (CHR ''F'') c)"

definition unhex :: "char \<Rightarrow> nat" where
  "unhex c =
     (if is_digit c then of_char c - 48
      else if byte_within (CHR ''a'') (CHR ''f'') c then of_char c - 97 + 10
      else if byte_within (CHR ''A'') (CHR ''F'') c then of_char c - 65 + 10
      else 0)"

datatype encoding = encodePath | encodeHost | encodeZone | encodeUserPassword

text \<open>\<open>shouldEscape(c, encodeHost)\<close>: the bytes a host may not hold unescaped.\<close>

definition shouldEscape_host :: "char \<Rightarrow> bool" where
  "shouldEscape_host c =
     (\<not> (is_alpha c \<or> is_digit c \<or> c \<in> set ''!$&'' \<or> c = CHR 0x27 \<or> c \<in> set ''()*+,;=:[]<>''
         \<or> c = CHR 0x22 \<or> c \<in> set ''-_.~''))"

text \<open>The first loop of \<open>unescape\<close>: whether the escapes are well formed for the mode.\<close>

fun unescape_valid :: "encoding \<Rightarrow> string \<Rightarrow> bool" where
  "unescape_valid mode [] = True"
| "unescape_valid mode (c # s) =
     (if c = CHR ''%'' then
        (case s of
           h1 # h2 # s' \<Rightarrow>
             ishex h1 \<and> ishex h2
             \<and> \<not> (mode = encodeHost \<and> unhex h1 < 8 \<and> [h1, h2] \<noteq> ''25'')
             \<and> \<not> (mode = encodeZone \<and> [h1, h2] \<noteq> ''25''
                    \<and> char_of (unhex h1 * 16 + unhex h2) \<noteq> CHR '' ''
                    \<and> shouldEscape_host (char_of (unhex h1 * 16 + unhex h2)))
             \<and> unescape_valid mode s'
         | _ \<Rightarrow> False)
      else if c = CHR ''+'' then unescape_valid mode s
      else \<not> ((mode = encodeHost \<or> mode = encodeZone) \<and> c < CHR 0x80 \<and> shouldEscape_host c)
           \<and> unescape_valid mode s)"

text \<open>The second loop of \<open>unescape\<close>: each escape becomes its byte.\<close>

fun unescape_bytes :: "string \<Rightarrow> string" where
  "unescape_bytes [] = []"
| "unescape_bytes (c # s) =
     (if c = CHR ''%'' then
        (case s of
           h1 # h2 # s' \<Rightarrow> char_of (unhex h1 * 16 + unhex h2) # unescape_bytes s'
         | _ \<Rightarrow> c # unescape_bytes s)
      else c # unescape_bytes s)"

definition unescape :: "string \<Rightarrow> encoding \<Rightarrow> string option" where
  "unescape s mode = (if unescape_valid mode s then Some (unescape_bytes s) else None)"

definition validOptionalPort :: "string \<Rightarrow> bool" where
  "validOptionalPort port =
     (case port of [] \<Rightarrow> True | c # ds \<Rightarrow> c = CHR '':'' \<and> list_all is_digit ds)"

definition validUserinfo :: "string \<Rightarrow> bool" where
  "validUserinfo s =
     list_all (\<lambda>r. is_alpha r \<or> is_digit r \<or> r \<in> set ''-._:~!$&'' \<or> r = CHR 0x27
                   \<or> r \<in> set ''()*+,;=%@'') s"

text \<open>The part of \<open>s\<close> before the first occurrence of \<open>sub\<close> and the part from it on.\<close>

fun cut_at :: "string \<Rightarrow> string \<Rightarrow> (string \<times> string) option" where
  "cut_at sub [] = (if sub = [] then Some ([], []) else None)"
| "cut_at sub (c # s) =
     (if strings_HasPrefix (c # s) sub then Some ([], c # s)
      else map_option (\<lambda>(a, b). (c # a, b)) (cut_at sub s))"

text \<open>
  \<open>netip.ParseAddr\<close>, as the test that \<open>parseHost\<close> makes of the text between square
  brackets: it is an IPv6 address. The dotted tail of such an address has four decimal
  fields of at most 255 with no leading zero.
\<close>

definition parseIPv4Fields :: "string \<Rightarrow> bool" where
  "parseIPv4Fields s =
     (let fields = strings_Split s (CHR ''.'')
      in length fields = 4
         \<and> list_all (\<lambda>f. f \<noteq> [] \<and> list_all is_digit f
                          \<and> (length f = 1 \<or> take 1 f \<noteq> ''0'')
                          \<and> foldl (\<lambda>val c. val * 10 + (of_char c - 48)) (0::nat) f \<le> 255) fields)"

text \<open>
  The loop of \<open>parseIPv6\<close> over the groups of hexadecimal digits. \<open>groups\<close> is the number
  of 16-bit groups that still fit (the index \<open>i\<close> of the source is
  \<open>16 - 2 * groups\<close>), \<open>ellipsis\<close> tells whether \<open>::\<close> has been read. When the text
  ends, an address that is not full needs the ellipsis, and a full one must not have it.
\<close>

fun parseIPv6_groups :: "nat \<Rightarrow> bool \<Rightarrow> string \<Rightarrow> bool" where
  "parseIPv6_groups 0 ellipsis s = (s = [] \<and> \<not> ellipsis)"
| "parseIPv6_groups (Suc groups) ellipsis s =
     (let digits = takeWhile ishex s; s1 = dropWhile ishex s
      in if digits = [] \<or> 4 < length digits then False
         else if take 1 s1 = ''.'' then
           (if groups = 0 then False
            else if groups = 1 then \<not> ellipsis \<and> parseIPv4Fields s
            else ellipsis \<and> parseIPv4Fields s)
         else if s1 = [] then (if groups = 0 then \<not> ellipsis else ellipsis)
         else if take 1 s1 \<noteq> '':'' then False
         else if length s1 = 1 then False
         else if take 1 (drop 1 s1) = '':'' then
           (if ellipsis then False
            else if drop 2 s1 = [] then groups \<noteq> 0
            else parseIPv6_groups groups True (drop 2 s1))
         else parseIPv6_groups groups ellipsis (drop 1 s1))"

definition parseIPv6 :: "string \<Rightarrow> bool" where
  "parseIPv6 input =
     (let s = takeWhile (\<lambda>c. c \<noteq> CHR ''%'') input;
          zone = drop 1 (dropWhile (\<lambda>c. c \<noteq> CHR ''%'') input)
      in if CHR ''%'' \<in> set input \<and> zone = [] then False
         else if strings_HasPrefix s ''::'' then
           (if drop 2 s = [] then True else parseIPv6_groups 8 True (drop 2 s))
         else parseIPv6_groups 8 False s)"

text \<open>
  \<open>ParseAddr\<close> goes by the first dot, colon or percent sign: only a colon leads to an
  IPv6 address, and \<open>parseHost\<close> refuses every other address.
\<close>

definition ParseAddr_IPv6 :: "string \<Rightarrow> bool" where
  "ParseAddr_IPv6 s =
     (case dropWhile (\<lambda>c. c \<noteq> CHR ''.'' \<and> c \<noteq> CHR '':'' \<and> c \<noteq> CHR ''%'') s of
        [] \<Rightarrow> False
      | c # rest \<Rightarrow> c = CHR '':'' \<and> parseIPv6 s)"

text \<open>
  \<open>parseHost\<close>, as a test: the host it would return is not stored. A host that starts
  with a square bracket is an IP literal: an optional port after the last closing
  bracket, and between the brackets an IPv6 address, with its zone after \<open>%25\<close>.
\<close>

definition parseHost :: "string \<Rightarrow> bool" where
  "parseHost host =
     (if strings_HasPrefix host ''['' then
        (if CHR '']'' \<notin> set host then False
         else
           let colonPort = rev (takeWhile (\<lambda>c. c \<noteq> CHR '']'') (rev host));
               hostname = drop 1 (take (length host - length colonPort - 1) host)
           in if \<not> validOptionalPort colonPort then False
              else if \<not> unescape_valid encodeHost colonPort then False
              else (case cut_at ''%25'' hostname of
                      Some (hostPart, zonePart) \<Rightarrow>
                        unescape_valid encodeHost hostPart \<and> unescape_valid encodeZone zonePart
                        \<and> ParseAddr_IPv6 (unescape_bytes hostPart @ unescape_bytes zonePart)
                    | None \<Rightarrow>
                        unescape_valid encodeHost hostname
                        \<and> ParseAddr_IPv6 (unescape_bytes hostname)))
      else if CHR '':'' \<in> set host
              \<and> \<not> validOptionalPort (CHR '':'' # rev (takeWhile (\<lambda>c. c \<noteq> CHR '':'') (rev host)))
      then False
      else unescape_valid encodeHost host)"

definition parseAuthority :: "string \<Rightarrow> bool" where
  "parseAuthority authority =
     (if CHR ''@'' \<notin> set authority then parseHost authority
      else
        let host = rev (takeWhile (\<lambda>c. c \<noteq> CHR ''@'') (rev authority));
            userinfo = take (length authority - length host - 1) authority
        in parseHost host \<and> validUserinfo userinfo
           \<and> (if CHR '':'' \<notin> set userinfo then unescape_valid encodeUserPassword userinfo
              else unescape_valid encodeUserPassword (fst (strings_Cut userinfo (CHR '':'')))
                   \<and> unescape_valid encodeUserPassword (snd (strings_Cut userinfo (CHR '':'')))))"

definition setPath :: "url \<Rightarrow> string \<Rightarrow> url option" where
  "setPath u p = map_option (\<lambda>path. u\<lparr>Path := path\<rparr>) (unescape p encodePath)"

text \<open>
  \<open>url.ParseRequestURI(rawURL)\<close> is \<open>parse(rawURL, true)\<close>; \<open>None\<close> is the nil URL that
  comes with any of its errors.
\<close>

definition ParseRequestURI :: "string \<Rightarrow> url option" where
  "ParseRequestURI rawURL =
     (let empty = \<lparr>Scheme = [], Opaque = [], Path = [], RawQuery = [], ForceQuery = False\<rparr>
      in if stringContainsCTLByte rawURL then None
         else if rawURL = [] then None
         else if rawURL = ''*'' then Some (empty\<lparr>Path := ''*''\<rparr>)
         else
           (case getScheme rawURL of
              None \<Rightarrow> None
            | Some (scheme, rest0) \<Rightarrow>
                let u0 = empty\<lparr>Scheme := map toLower scheme\<rparr>;
                    force = (strings_HasSuffix rest0 ''?'' \<and> count_list rest0 (CHR ''?'') = 1);
                    rest = (if force then butlast rest0 else fst (strings_Cut rest0 (CHR ''?'')));
                    u = (if force then u0\<lparr>ForceQuery := True\<rparr>
                         else u0\<lparr>RawQuery := snd (strings_Cut rest0 (CHR ''?''))\<rparr>)
                in if \<not> strings_HasPrefix rest ''/'' then
                     (if Scheme u \<noteq> [] then Some (u\<lparr>Opaque := rest\<rparr>) else None)
                   else if Scheme u \<noteq> [] \<and> strings_HasPrefix rest ''//'' then
                     (let authority = takeWhile (\<lambda>c. c \<noteq> CHR ''/'') (drop 2 rest);
                          rest' = dropWhile (\<lambda>c. c \<noteq> CHR ''/'') (drop 2 rest)
                      in if parseAuthority authority then setPath u rest' else None)
                   else setPath u rest))"

section \<open>The manifest: Library, Read and Write\<close>

record Library =
  Configuration :: string
  UrlOrPath :: string
  Version :: string
  RelativePath :: string
  Name :: string
  Modified :: bool
  URL :: "url option"

datatype error =
    PathError string
  | ErrTooLong
  | UnableToFindDependency Library
  | External string

text \<open>
  The file system as the manifest code sees it: the content of each file that exists, and
  the paths that \<open>os.OpenFile\<close> cannot open for writing.
\<close>

record filesystem =
  files :: "string \<rightharpoonup> string"
  denied :: "string \<Rightarrow> bool"

subsection \<open>Read\<close>

text \<open>
  The body of the loop of \<open>Read\<close>, up to the \<open>Library\<close> it appends. \<open>fields\<close> is never
  empty (\<open>strings.Split\<close> returns at least one field), so \<open>fields ! 0\<close> is its first element.
\<close>

definition Read_line :: "string \<Rightarrow> string \<Rightarrow> Library" where
  "Read_line fn line =
     (let fields = strings_Split line (CHR '' '');
          urlOrPath = fields ! 0;
          version = (if length fields > 1 then fields ! 1 else []);
          relativePath = (if length fields > 2 then fields ! 2 else ''/'');
          url = ParseRequestURI urlOrPath;
          name = (case url of
                    Some u \<Rightarrow> strings_TrimSuffix (path_Base (Path u)) (path_Ext (path_Base (Path u)))
                  | None \<Rightarrow> path_Base urlOrPath);
          name' = (if relativePath \<noteq> ''/''
                   then name @ strings_Replace relativePath (CHR ''/'') (CHR ''_'')
                   else name)
      in \<lparr>Configuration = fn, UrlOrPath = urlOrPath, Version = version,
          RelativePath = relativePath, Name = name', Modified = False, URL = url\<rparr>)"

text \<open>A Go map of strings gives the empty string for a key it does not hold.\<close>

definition map_index :: "(string \<rightharpoonup> string) \<Rightarrow> string \<Rightarrow> string" where
  "map_index m k = (case m k of None \<Rightarrow> [] | Some v \<Rightarrow> v)"

text \<open>
  The loop over the scanned lines, with \<open>versionsByPath\<close> and \<open>d.Libraries\<close> as they
  stand. \<open>Inl\<close> is \<open>log.Fatalf\<close>, which ends the process, with the source it names.
\<close>

fun Read_loop ::
  "string \<Rightarrow> string list \<Rightarrow> (string \<rightharpoonup> string) \<Rightarrow> Library list \<Rightarrow> string + Library list" where
  "Read_loop fn [] versionsByPath libraries = Inr libraries"
| "Read_loop fn (line # lines) versionsByPath libraries =
     (let lib = Read_line fn line;
          libraries' = libraries @ [lib]
      in if map_index versionsByPath (UrlOrPath lib) \<noteq> []
            \<and> map_index versionsByPath (UrlOrPath lib) \<noteq> Version lib
         then Inl (UrlOrPath lib)
         else Read_loop fn lines (versionsByPath(UrlOrPath lib \<mapsto> Version lib)) libraries')"

datatype Read_result =
    Fatal string
  | Returned "Library list" "error option"

text \<open>
  \<open>d.Read(fn)\<close> on the libraries that \<open>d\<close> holds: \<open>Fatal\<close> when the process is ended,
  otherwise the libraries of \<open>d\<close> afterwards and the error returned. \<open>versionsByPath\<close>
  is made anew by each call.
\<close>

definition Read :: "filesystem \<Rightarrow> string \<Rightarrow> Library list \<Rightarrow> Read_result" where
  "Read fs fn libraries =
     (case files fs fn of
        None \<Rightarrow> Returned libraries (Some (PathError fn))
      | Some content \<Rightarrow>
          (case Scanner_lines content of
             (lines, too_long) \<Rightarrow>
               (case Read_loop fn lines Map.empty libraries of
                  Inl urlOrPath \<Rightarrow> Fatal urlOrPath
                | Inr libraries' \<Rightarrow>
                    Returned libraries' (if too_long then Some ErrTooLong else None))))"

subsection \<open>Write\<close>

text \<open>The line that \<open>Write\<close> formats for one library.\<close>

definition Write_line :: "Library \<Rightarrow> string" where
  "Write_line lib =
     (let version = (if Version lib = [] then ''*'' else Version lib)
      in if RelativePath lib \<noteq> ''/''
         then UrlOrPath lib @ '' '' @ version @ '' '' @ RelativePath lib @ [CHR 0x0A]
         else UrlOrPath lib @ '' '' @ version @ [CHR 0x0A])"

text \<open>
  \<open>Write(path)\<close>: the file is created or truncated, then holds one line for each library.
  The source drops the result of each \<open>WriteString\<close>; the model takes a write to an open
  file to succeed.
\<close>

definition Write :: "Library list \<Rightarrow> string \<Rightarrow> filesystem \<Rightarrow> error option \<times> filesystem" where
  "Write libraries path fs =
     (if denied fs path then (Some (PathError path), fs)
      else (None, fs\<lparr>files := (files fs)(path \<mapsto> concat (map Write_line libraries))\<rparr>))"

subsection \<open>SaveModified\<close>

text \<open>The first loop of \<open>SaveModified\<close>: the libraries of each configuration, in order.\<close>

fun byConfiguration_loop ::
  "Library list \<Rightarrow> (string \<rightharpoonup> Library list) \<Rightarrow> (string \<rightharpoonup> Library list)" where
  "byConfiguration_loop [] byConfiguration = byConfiguration"
| "byConfiguration_loop (lib # libs) byConfiguration =
     byConfiguration_loop libs
       (byConfiguration(Configuration lib \<mapsto>
          (case byConfiguration (Configuration lib) of None \<Rightarrow> [] | Some ls \<Rightarrow> ls) @ [lib]))"

text \<open>
  The second loop ranges over the map. Go visits each key once, in an order it does not
  specify: \<open>keys\<close> is the order of one run. The result is the error returned, the
  configurations logged as written, and the file system afterwards.
\<close>

fun SaveModified_range ::
  "bool \<Rightarrow> (string \<rightharpoonup> Library list) \<Rightarrow> string list \<Rightarrow> string list \<Rightarrow> filesystem
     \<Rightarrow> error option \<times> string list \<times> filesystem" where
  "SaveModified_range force byConfiguration [] log fs = (None, log, fs)"
| "SaveModified_range force byConfiguration (configuration # keys) log fs =
     (case byConfiguration configuration of
        None \<Rightarrow> SaveModified_range force byConfiguration keys log fs
      | Some libs \<Rightarrow>
          if force \<or> list_ex Modified libs then
            (case Write libs configuration fs of
               (Some err, fs') \<Rightarrow> (Some err, log @ [configuration], fs')
             | (None, fs') \<Rightarrow>
                 SaveModified_range force byConfiguration keys (log @ [configuration]) fs')
          else SaveModified_range force byConfiguration keys log fs)"

definition SaveModified ::
  "string list \<Rightarrow> Library list \<Rightarrow> bool \<Rightarrow> filesystem \<Rightarrow> error option \<times> string list \<times> filesystem" where
  "SaveModified keys libraries force fs =
     SaveModified_range force (byConfiguration_loop libraries Map.empty) keys [] fs"

section \<open>Resolution: Refresh\<close>

text \<open>
  \<open>Refresh\<close> works on the machine's directories and on the repositories, which are not
  part of dependencies.go. The state of both is a value of any type \<open>'w\<close>, and the
  operations on it are the fields of a record: each takes the state, and each that can
  change it returns the new one. An error of theirs is its message.
\<close>

record FileInfo =
  IsRegular :: bool
  IsDir :: bool

record DependencyInfo =
  DependencyInfo_Name :: string
  DependencyInfo_Path :: string
  DependencyInfo_RelativePath :: string

record 'w system =
  os_Stat :: "'w \<Rightarrow> string \<Rightarrow> FileInfo option"
  filepath_Abs :: "'w \<Rightarrow> string \<Rightarrow> string + string"
  os_MkdirAll :: "'w \<Rightarrow> string \<Rightarrow> string option \<times> 'w"
  GetWorkingCopyPathAndName :: "'w \<Rightarrow> Library \<Rightarrow> string \<Rightarrow> string \<times> 'w"
  CloneDependency :: "'w \<Rightarrow> Library \<Rightarrow> string \<Rightarrow> bool \<Rightarrow> (string + string) \<times> 'w"
  GetRepositoryHash :: "'w \<Rightarrow> string \<Rightarrow> (string + string) \<times> 'w"
  TemplateData_Write :: "'w \<Rightarrow> string \<Rightarrow> DependencyInfo list \<Rightarrow> string option \<times> 'w"

definition checkForLocalOverride :: "'w system \<Rightarrow> 'w \<Rightarrow> Library \<Rightarrow> error + string" where
  "checkForLocalOverride sys w lib =
     (let expected = path_Join ''../'' (Name lib)
      in case os_Stat sys w expected of
           Some s \<Rightarrow>
             if \<not> IsRegular s then
               (case filepath_Abs sys w expected of
                  Inl err \<Rightarrow> Inl (External err)
                | Inr absolute \<Rightarrow> Inr absolute)
             else Inr []
         | None \<Rightarrow> Inr [])"

definition touchLocalOverrideDummy :: "'w system \<Rightarrow> 'w \<Rightarrow> string \<Rightarrow> string option \<times> 'w" where
  "touchLocalOverrideDummy sys w path = os_MkdirAll sys w path"

text \<open>
  The body of the loop of \<open>Refresh\<close>, in its three parts. First the override, when local
  overrides are allowed: the dependency path it gives, empty when there is none.
\<close>

definition Refresh_override ::
  "'w system \<Rightarrow> string \<Rightarrow> bool \<Rightarrow> Library \<Rightarrow> 'w \<Rightarrow> (error + string) \<times> 'w" where
  "Refresh_override sys directory allowLocal lib w =
     (if allowLocal then
        (case checkForLocalOverride sys w lib of
           Inl err \<Rightarrow> (Inl err, w)
         | Inr overridePath \<Rightarrow>
             if overridePath \<noteq> [] then
               (if URL lib \<noteq> None then
                  (case GetWorkingCopyPathAndName sys w lib directory of
                     (dummyPath, w1) \<Rightarrow>
                       (case touchLocalOverrideDummy sys w1 dummyPath of
                          (Some err, w2) \<Rightarrow> (Inl (External err), w2)
                        | (None, w2) \<Rightarrow> (Inr overridePath, w2)))
                else (Inr overridePath, w))
             else (Inr [], w))
      else (Inr [], w))"

text \<open>
  Then, with no dependency path yet: the clone of a library with a URL; for one without,
  the test of its directory, which logs and assigns nothing.
\<close>

definition Refresh_fetch ::
  "'w system \<Rightarrow> string \<Rightarrow> bool \<Rightarrow> Library \<Rightarrow> 'w \<Rightarrow> (error + string) \<times> 'w" where
  "Refresh_fetch sys directory useHead lib w =
     (if URL lib \<noteq> None then
        (case CloneDependency sys w lib directory useHead of
           (Inl err, w1) \<Rightarrow> (Inl (External err), w1)
         | (Inr clonePath, w1) \<Rightarrow> (Inr clonePath, w1))
      else
        (case os_Stat sys w (UrlOrPath lib) of
           Some s \<Rightarrow>
             if IsDir s then
               (case GetRepositoryHash sys w (UrlOrPath lib) of (version, w1) \<Rightarrow> (Inr [], w1))
             else (Inr [], w)
         | None \<Rightarrow> (Inr [], w)))"

definition Refresh_lib ::
  "'w system \<Rightarrow> string \<Rightarrow> bool \<Rightarrow> bool \<Rightarrow> Library \<Rightarrow> 'w \<Rightarrow> (error + DependencyInfo) \<times> 'w" where
  "Refresh_lib sys directory useHead allowLocal lib w =
     (case Refresh_override sys directory allowLocal lib w of
        (Inl err, w1) \<Rightarrow> (Inl err, w1)
      | (Inr overridePath, w1) \<Rightarrow>
          (case (if overridePath = [] then Refresh_fetch sys directory useHead lib w1
                 else (Inr overridePath, w1)) of
             (Inl err, w2) \<Rightarrow> (Inl err, w2)
           | (Inr dependencyPath, w2) \<Rightarrow>
               if dependencyPath = [] then (Inl (UnableToFindDependency lib), w2)
               else
                 (case filepath_Abs sys w2 dependencyPath of
                    Inl err \<Rightarrow> (Inl (External err), w2)
                  | Inr absolute \<Rightarrow>
                      (Inr \<lparr>DependencyInfo_Name = Name lib, DependencyInfo_Path = absolute,
                            DependencyInfo_RelativePath = RelativePath lib\<rparr>, w2))))"

fun Refresh_loop ::
  "'w system \<Rightarrow> string \<Rightarrow> bool \<Rightarrow> bool \<Rightarrow> Library list \<Rightarrow> DependencyInfo list \<Rightarrow> string \<Rightarrow> 'w
     \<Rightarrow> (error + DependencyInfo list \<times> string) \<times> 'w" where
  "Refresh_loop sys directory useHead allowLocal [] templateDatas project w =
     (Inr (templateDatas, project), w)"
| "Refresh_loop sys directory useHead allowLocal (lib # libs) templateDatas project w =
     (case Refresh_lib sys directory useHead allowLocal lib w of
        (Inl err, w1) \<Rightarrow> (Inl err, w1)
      | (Inr info, w1) \<Rightarrow>
          Refresh_loop sys directory useHead allowLocal libs (templateDatas @ [info])
            (filepath_Dir (Configuration lib)) w1)"

text \<open>
  \<open>d.Refresh\<close>: the error returned and the state afterwards. The rendering of the template
  (\<open>TemplateData.Write\<close>) is an operation of the system.
\<close>

definition Refresh ::
  "'w system \<Rightarrow> Library list \<Rightarrow> string \<Rightarrow> bool \<Rightarrow> bool \<Rightarrow> 'w \<Rightarrow> error option \<times> 'w" where
  "Refresh sys libraries directory useHead allowLocal w =
     (case Refresh_loop sys directory useHead allowLocal libraries [] ''./'' w of
        (Inl err, w1) \<Rightarrow> (Some err, w1)
      | (Inr (templateDatas, project), w1) \<Rightarrow>
          (case TemplateData_Write sys w1 project templateDatas of
             (Some err, w2) \<Rightarrow> (Some (External err), w2)
           | (None, w2) \<Rightarrow> (None, w2)))"

subsection \<open>Version conflicts\<close>

text \<open>
  The test of the loop of \<open>Read\<close>, on the map and on two entries: an entry conflicts with
  a later one of the same source when its own version is not empty and the later version
  is another string.
\<close>

definition map_conflict :: "(string \<rightharpoonup> string) \<Rightarrow> Library \<Rightarrow> bool" where
  "map_conflict m lib =
     (map_index m (UrlOrPath lib) \<noteq> [] \<and> map_index m (UrlOrPath lib) \<noteq> Version lib)"

definition conflicting :: "Library \<Rightarrow> Library \<Rightarrow> bool" where
  "conflicting earlier later =
     (UrlOrPath earlier = UrlOrPath later \<and> Version earlier \<noteq> []
      \<and> Version earlier \<noteq> Version later)"

subsection \<open>An example system\<close>

text \<open>
  A small system on which \<open>Refresh\<close> can be run: the state is the list of the directories
  that exist; no path is a regular file; the working directory is \<open>/work\<close>; a
  library is cloned into the base directory when its URL has the scheme https, and its
  repository is not found otherwise; no directory has a repository hash.
\<close>

definition example_system :: "string list system" where
  "example_system =
     \<lparr>os_Stat = (\<lambda>w p. if p \<in> set w then Some \<lparr>IsRegular = False, IsDir = True\<rparr> else None),
      filepath_Abs =
        (\<lambda>w p. Inr (path_Clean (if strings_HasPrefix p ''/'' then p else ''/work/'' @ p))),
      os_MkdirAll = (\<lambda>w p. (None, p # w)),
      GetWorkingCopyPathAndName = (\<lambda>w lib directory. (directory @ ''/'' @ Name lib, w)),
      CloneDependency =
        (\<lambda>w lib directory useHead.
           if map_option Scheme (URL lib) = Some ''https''
           then (Inr (directory @ ''/'' @ Name lib), (directory @ ''/'' @ Name lib) # w)
           else (Inl ''repository not found'', w)),
      GetRepositoryHash = (\<lambda>w p. (Inl ''not a repository'', w)),
      TemplateData_Write = (\<lambda>w project templateDatas. (None, w))\<rparr>"

text \<open>File systems that refuse no file: one manifest, and the two manifests of one run.\<close>

definition example_files :: "string \<Rightarrow> string \<Rightarrow> filesystem" where
  "example_files fn content = \<lparr>files = [fn \<mapsto> content], denied = (\<lambda>path. False)\<rparr>"

definition example_two_files :: filesystem where
  "example_two_files =
     \<lparr>files = [''deps1'' \<mapsto> ''a 1.0'', ''deps2'' \<mapsto> ''a 2.0''], denied = (\<lambda>path. False)\<rparr>"

section \<open>Properties of the manifest code\<close>

subsection \<open>Fields of a line\<close>

lemma strings_Split_not_Nil: "strings_Split s sep \<noteq> []"
  by (induction s) (auto split: list.splits)

lemma strings_Split_no_sep: "sep \<notin> set s \<Longrightarrow> strings_Split s sep = [s]"
  by (induction s) auto

lemma strings_Split_append:
  "sep \<notin> set a \<Longrightarrow> strings_Split (a @ sep # r) sep = a # strings_Split r sep"
  by (induction a) auto

lemma strings_Split_fields: "f \<in> set (strings_Split s sep) \<Longrightarrow> sep \<notin> set f"
  by (induction s arbitrary: f) (auto split: if_splits list.splits)

lemma strings_Split_other: "f \<in> set (strings_Split s sep) \<Longrightarrow> set f \<subseteq> set s"
proof (induction s arbitrary: f)
  case Nil
  then show ?case by simp
next
  case (Cons c s)
  show ?case
  proof (cases "c = sep")
    case True
    with Cons show ?thesis by auto
  next
    case False
    obtain g gs where g: "strings_Split s sep = g # gs"
      using strings_Split_not_Nil [of s sep] by (cases "strings_Split s sep") auto
    from Cons.prems False g have "f = c # g \<or> f \<in> set gs" by simp
    moreover have "set g \<subseteq> set s" using Cons.IH [of g] g by simp
    moreover have "f \<in> set gs \<Longrightarrow> set f \<subseteq> set s" using Cons.IH [of f] g by simp
    ultimately show ?thesis by auto
  qed
qed

lemma strings_Split_first: "strings_Split s sep ! 0 = takeWhile (\<lambda>c. c \<noteq> sep) s"
  by (induction s) (auto simp: strings_Split_not_Nil split: list.splits)

text \<open>
  C10. \<open>Read\<close> splits a line at every single space and at nothing else: the source is
  the line up to its first space, and the token after one space is the version. With two
  spaces between the source and the next token,
  the version is the empty field between them and the token is taken as the relative
  path; a tab between two tokens separates nothing: the whole line is the source, with
  the default version and relative path.
\<close>

theorem Read_line_splits_on_single_spaces:
  assumes "CHR '' '' \<notin> set a" and "CHR '' '' \<notin> set b"
  shows "UrlOrPath (Read_line fn (a @ ''  '' @ b)) = a
       \<and> Version (Read_line fn (a @ ''  '' @ b)) = []
       \<and> RelativePath (Read_line fn (a @ ''  '' @ b)) = b
       \<and> UrlOrPath (Read_line fn (a @ CHR 0x09 # b)) = a @ CHR 0x09 # b
       \<and> Version (Read_line fn (a @ CHR 0x09 # b)) = []
       \<and> RelativePath (Read_line fn (a @ CHR 0x09 # b)) = ''/''
       \<and> UrlOrPath (Read_line fn line) = takeWhile (\<lambda>c. c \<noteq> CHR '' '') line
       \<and> UrlOrPath (Read_line fn (a @ '' '' @ b)) = a
       \<and> Version (Read_line fn (a @ '' '' @ b)) = b
       \<and> RelativePath (Read_line fn (a @ '' '' @ b)) = ''/''"
proof -
  have first: "UrlOrPath (Read_line fn line) = takeWhile (\<lambda>c. c \<noteq> CHR '' '') line"
    by (simp add: Read_line_def Let_def strings_Split_first)
  have one: "strings_Split (a @ '' '' @ b) (CHR '' '') = [a, b]"
    using assms by (simp add: strings_Split_append strings_Split_no_sep)
  have single: "UrlOrPath (Read_line fn (a @ '' '' @ b)) = a
       \<and> Version (Read_line fn (a @ '' '' @ b)) = b
       \<and> RelativePath (Read_line fn (a @ '' '' @ b)) = ''/''"
    unfolding Read_line_def Let_def one by simp
  have two: "strings_Split (a @ ''  '' @ b) (CHR '' '') = [a, [], b]"
    using assms by (simp add: strings_Split_append strings_Split_no_sep)
  have "CHR '' '' \<notin> set (a @ CHR 0x09 # b)"
    using assms by simp
  then have tab: "strings_Split (a @ CHR 0x09 # b) (CHR '' '') = [a @ CHR 0x09 # b]"
    by (rule strings_Split_no_sep)
  have "UrlOrPath (Read_line fn (a @ ''  '' @ b)) = a
       \<and> Version (Read_line fn (a @ ''  '' @ b)) = []
       \<and> RelativePath (Read_line fn (a @ ''  '' @ b)) = b
       \<and> UrlOrPath (Read_line fn (a @ CHR 0x09 # b)) = a @ CHR 0x09 # b
       \<and> Version (Read_line fn (a @ CHR 0x09 # b)) = []
       \<and> RelativePath (Read_line fn (a @ CHR 0x09 # b)) = ''/''"
    unfolding Read_line_def Let_def two tab by simp
  with first single show ?thesis by simp
qed

theorem Read_line_splits_on_single_spaces_witness:
  "UrlOrPath (Read_line ''deps'' ''lib  1.0'') = ''lib''
   \<and> Version (Read_line ''deps'' ''lib  1.0'') = []
   \<and> RelativePath (Read_line ''deps'' ''lib  1.0'') = ''1.0''
   \<and> UrlOrPath (Read_line ''deps'' (''lib'' @ CHR 0x09 # ''1.0'')) = ''lib'' @ CHR 0x09 # ''1.0''
   \<and> Version (Read_line ''deps'' (''lib'' @ CHR 0x09 # ''1.0'')) = []
   \<and> RelativePath (Read_line ''deps'' (''lib'' @ CHR 0x09 # ''1.0'')) = ''/''
   \<and> UrlOrPath (Read_line ''deps'' ''lib 1.0 /sub'') = ''lib''
   \<and> Version (Read_line ''deps'' ''lib 1.0'') = ''1.0''
   \<and> RelativePath (Read_line ''deps'' ''lib 1.0'') = ''/''"
  using Read_line_splits_on_single_spaces [of "''lib''" "''1.0''" "''deps''" "''lib 1.0 /sub''"]
  by simp

subsection \<open>The derived name\<close>

text \<open>
  C7, as the code has it. For the source \<open>https://example.com/libs/foo.git\<close> the name is
  \<open>foo\<close> when the relative path is \<open>/\<close>, left out or written; with the relative path
  \<open>/sub\<close> it is \<open>foo_sub\<close>: every slash of the relative path, the leading one too,
  becomes an underscore, and nothing is stripped.
\<close>

theorem Read_line_Name_foo:
  "Name (Read_line fn ''https://example.com/libs/foo.git'') = ''foo''
   \<and> Name (Read_line fn ''https://example.com/libs/foo.git 1.0 /'') = ''foo''
   \<and> Name (Read_line fn ''https://example.com/libs/foo.git 1.0 /sub'') = ''foo_sub''"
  by code_simp

text \<open>The name for the relative path \<open>/sub\<close> is not \<open>foosub\<close>.\<close>

theorem Read_line_Name_not_foosub:
  "Name (Read_line ''deps'' ''https://example.com/libs/foo.git 1.0 /sub'') \<noteq> ''foosub''"
  by code_simp

subsection \<open>The libraries that Read appends\<close>

lemma Read_loop_append:
  "Read_loop fn lines m libs =
     (case Read_loop fn lines m [] of Inl u \<Rightarrow> Inl u | Inr ls \<Rightarrow> Inr (libs @ ls))"
proof (induction lines arbitrary: m libs)
  case Nil
  show ?case by simp
next
  case (Cons line lines)
  show ?case
    using Cons.IH [of _ "libs @ [Read_line fn line]"] Cons.IH [of _ "[Read_line fn line]"]
    by (simp add: Let_def split: sum.splits)
qed

lemma Read_loop_Inr:
  "Read_loop fn lines m libs = Inr libs' \<Longrightarrow> libs' = libs @ map (Read_line fn) lines"
proof (induction lines arbitrary: m libs)
  case Nil
  then show ?case by simp
next
  case (Cons line lines)
  from Cons.prems show ?case
    by (auto simp: Let_def split: if_splits dest: Cons.IH)
qed

lemma UrlOrPath_Read_line: "UrlOrPath (Read_line fn line) = strings_Split line (CHR '' '') ! 0"
  by (simp add: Read_line_def Let_def)

lemma Version_Read_line:
  "Version (Read_line fn line) =
     (if length (strings_Split line (CHR '' '')) > 1 then strings_Split line (CHR '' '') ! 1 else [])"
  by (simp add: Read_line_def Let_def)

lemmas Read_eval =
  Read_def Scanner_lines_def MaxScanTokenSize_def dropCR_def map_index_def Let_def
  UrlOrPath_Read_line Version_Read_line

text \<open>
  C5, as the code has it. \<open>versionsByPath\<close> is made by each call of \<open>Read\<close>, so it spans
  the entries of one manifest file: whether a call ends the process does not depend on
  the libraries read before it, from whatever file, and a call that returns appends its
  own entries to them.
\<close>

theorem Read_conflicts_are_per_file:
  "Read fs fn libs =
     (case Read fs fn [] of
        Fatal u \<Rightarrow> Fatal u
      | Returned ls err \<Rightarrow> Returned (libs @ ls) err)"
proof (cases "files fs fn")
  case None
  then show ?thesis by (simp add: Read_def)
next
  case (Some content)
  obtain lines too_long where s: "Scanner_lines content = (lines, too_long)"
    by (cases "Scanner_lines content")
  show ?thesis
    using Read_loop_append [of fn lines Map.empty libs]
    by (simp add: Read_def Some s split: sum.splits)
qed

text \<open>
  Two manifest files of one run, \<open>a 1.0\<close> in the first and \<open>a 2.0\<close> in the second: the
  second \<open>Read\<close> returns with both entries, of one source and two versions, and no
  error.
\<close>

theorem Read_cross_file_conflict_undetected:
  "Read example_two_files ''deps1'' [] = Returned [Read_line ''deps1'' ''a 1.0''] None
   \<and> Read example_two_files ''deps2'' [Read_line ''deps1'' ''a 1.0'']
       = Returned [Read_line ''deps1'' ''a 1.0'', Read_line ''deps2'' ''a 2.0''] None
   \<and> UrlOrPath (Read_line ''deps1'' ''a 1.0'') = ''a''
   \<and> UrlOrPath (Read_line ''deps2'' ''a 2.0'') = ''a''
   \<and> Version (Read_line ''deps1'' ''a 1.0'') = ''1.0''
   \<and> Version (Read_line ''deps2'' ''a 2.0'') = ''2.0''"
  by (simp add: Read_eval example_two_files_def)

subsection \<open>Version conflicts within one file\<close>

lemma ex_pair_Cons:
  "(\<exists>i j. i < j \<and> j < length (x # xs) \<and> R ((x # xs) ! i) ((x # xs) ! j))
   \<longleftrightarrow> (\<exists>y \<in> set xs. R x y) \<or> (\<exists>i j. i < j \<and> j < length xs \<and> R (xs ! i) (xs ! j))"
  (is "?L \<longleftrightarrow> ?A \<or> ?B")
proof
  assume ?L
  then obtain i j where ij: "i < j" "j < length (x # xs)" "R ((x # xs) ! i) ((x # xs) ! j)"
    by blast
  from ij(1) obtain j' where j': "j = Suc j'" by (cases j) auto
  show "?A \<or> ?B"
  proof (cases i)
    case 0
    with ij j' have "R x (xs ! j')" "j' < length xs" by auto
    then show ?thesis using nth_mem by blast
  next
    case (Suc i')
    with ij j' have "i' < j'" "j' < length xs" "R (xs ! i') (xs ! j')" by auto
    then show ?thesis by blast
  qed
next
  assume "?A \<or> ?B"
  then show ?L
  proof
    assume ?A
    then obtain k where "k < length xs" "R x (xs ! k)"
      by (auto simp: in_set_conv_nth)
    then have "0 < Suc k \<and> Suc k < length (x # xs) \<and> R ((x # xs) ! 0) ((x # xs) ! Suc k)"
      by simp
    then show ?L by blast
  next
    assume ?B
    then obtain i j where "i < j" "j < length xs" "R (xs ! i) (xs ! j)" by blast
    then have "Suc i < Suc j \<and> Suc j < length (x # xs) \<and> R ((x # xs) ! Suc i) ((x # xs) ! Suc j)"
      by simp
    then show ?L by blast
  qed
qed

lemma map_conflict_update:
  "\<not> map_conflict m a \<Longrightarrow>
   map_conflict (m(UrlOrPath a \<mapsto> Version a)) b \<longleftrightarrow> conflicting a b \<or> map_conflict m b"
  by (auto simp: map_conflict_def conflicting_def map_index_def)

lemma Read_loop_Inl_iff:
  "(\<exists>u. Read_loop fn lines m libs = Inl u) \<longleftrightarrow>
     (\<exists>l \<in> set lines. map_conflict m (Read_line fn l))
     \<or> (\<exists>i j. i < j \<and> j < length lines
            \<and> conflicting (Read_line fn (lines ! i)) (Read_line fn (lines ! j)))"
proof (induction lines arbitrary: m libs)
  case Nil
  show ?case by simp
next
  case (Cons line lines)
  let ?lib = "Read_line fn line"
  let ?entries = "map (Read_line fn) (line # lines)"
  have pairs: "(\<exists>i j. i < j \<and> j < length (line # lines)
            \<and> conflicting (Read_line fn ((line # lines) ! i)) (Read_line fn ((line # lines) ! j)))
      \<longleftrightarrow> (\<exists>l \<in> set lines. conflicting ?lib (Read_line fn l))
          \<or> (\<exists>i j. i < j \<and> j < length lines
            \<and> conflicting (Read_line fn (lines ! i)) (Read_line fn (lines ! j)))"
    using ex_pair_Cons [of line lines "\<lambda>a b. conflicting (Read_line fn a) (Read_line fn b)"]
    by simp
  show ?case
  proof (cases "map_conflict m ?lib")
    case True
    then have "Read_loop fn (line # lines) m libs = Inl (UrlOrPath ?lib)"
      by (simp add: map_conflict_def Let_def)
    with True show ?thesis by auto
  next
    case False
    then have step: "Read_loop fn (line # lines) m libs =
        Read_loop fn lines (m(UrlOrPath ?lib \<mapsto> Version ?lib)) (libs @ [?lib])"
      by (auto simp: map_conflict_def Let_def)
    show ?thesis
      unfolding step Cons.IH pairs
      using False by (auto simp: map_conflict_update)
  qed
qed

text \<open>
  C4, as the code has it. \<open>Read\<close> of a manifest file ends the process exactly when some
  entry with a version that is not empty is followed, later in the file, by an entry with
  the same source and another version string, the empty one included. So two entries of
  one source whose versions are not empty and differ are always fatal; equal versions
  raise no conflict; an empty version raises none when it comes first, and is fatal when
  it follows a version that is not empty.
\<close>

theorem Read_Fatal_iff:
  assumes "files fs fn = Some content" and "Scanner_lines content = (lines, too_long)"
  shows "(\<exists>u. Read fs fn libs = Fatal u) \<longleftrightarrow>
           (\<exists>i j. i < j \<and> j < length lines
              \<and> conflicting (Read_line fn (lines ! i)) (Read_line fn (lines ! j)))"
proof -
  have "(\<exists>u. Read fs fn libs = Fatal u) \<longleftrightarrow> (\<exists>u. Read_loop fn lines Map.empty libs = Inl u)"
    using assms by (auto simp: Read_def split: sum.splits)
  also have "\<dots> \<longleftrightarrow> (\<exists>i j. i < j \<and> j < length lines
              \<and> conflicting (Read_line fn (lines ! i)) (Read_line fn (lines ! j)))"
    unfolding Read_loop_Inl_iff by (simp add: map_conflict_def map_index_def)
  finally show ?thesis .
qed

theorem Read_Fatal_iff_witness:
  "files (example_files ''deps'' (''a 1.0'' @ CHR 0x0A # ''a'')) ''deps''
     = Some (''a 1.0'' @ CHR 0x0A # ''a'')
   \<and> Scanner_lines (''a 1.0'' @ CHR 0x0A # ''a'') = ([''a 1.0'', ''a''], False)
   \<and> (\<exists>u. Read (example_files ''deps'' (''a 1.0'' @ CHR 0x0A # ''a'')) ''deps'' [] = Fatal u)
   \<and> (\<exists>i j. i < j \<and> j < length [''a 1.0'', ''a'']
          \<and> conflicting (Read_line ''deps'' ([''a 1.0'', ''a''] ! i))
               (Read_line ''deps'' ([''a 1.0'', ''a''] ! j)))"
proof -
  have f: "files (example_files ''deps'' (''a 1.0'' @ CHR 0x0A # ''a'')) ''deps''
     = Some (''a 1.0'' @ CHR 0x0A # ''a'')"
    by (simp add: example_files_def)
  have s: "Scanner_lines (''a 1.0'' @ CHR 0x0A # ''a'') = ([''a 1.0'', ''a''], False)"
    by (simp add: Read_eval)
  have r: "Read (example_files ''deps'' (''a 1.0'' @ CHR 0x0A # ''a'')) ''deps'' [] = Fatal ''a''"
    by (simp add: Read_eval example_files_def)
  show ?thesis
    using f s r Read_Fatal_iff [OF f s, of "[]"] by simp
qed

text \<open>The entry \<open>a 1.0\<close> followed by the entry \<open>a\<close>, whose version is empty, is fatal.\<close>

theorem Read_empty_version_after_pinned_is_fatal:
  "Version (Read_line ''deps'' ''a 1.0'') = ''1.0''
   \<and> Version (Read_line ''deps'' ''a'') = []
   \<and> Read (example_files ''deps'' (''a 1.0'' @ CHR 0x0A # ''a'')) ''deps'' [] = Fatal ''a''"
  by (simp add: Read_eval example_files_def)

subsection \<open>Blank lines\<close>

lemma Read_line_blank:
  "Read_line fn [] =
     \<lparr>Configuration = fn, UrlOrPath = [], Version = [], RelativePath = ''/'', Name = ''.'',
      Modified = False, URL = None\<rparr>"
  by (simp add: Read_line_def ParseRequestURI_def stringContainsCTLByte_def path_Base_def)

text \<open>
  C8, as the code has it. \<open>Read\<close> skips no line: when it returns, it has appended one
  library for each scanned line, in order, and the library of an empty line has the empty
  source and version, the relative path \<open>/\<close>, the name \<open>.\<close> and no URL.
\<close>

theorem Read_keeps_blank_lines:
  assumes "files fs fn = Some content" and "Scanner_lines content = (lines, too_long)"
    and "Read fs fn libs = Returned libs' err"
  shows "libs' = libs @ map (Read_line fn) lines
       \<and> Read_line fn [] =
           \<lparr>Configuration = fn, UrlOrPath = [], Version = [], RelativePath = ''/'', Name = ''.'',
            Modified = False, URL = None\<rparr>"
proof -
  from assms have "Read_loop fn lines Map.empty libs = Inr libs'"
    by (auto simp: Read_def split: sum.splits)
  then show ?thesis
    using Read_loop_Inr Read_line_blank by blast
qed

theorem Read_keeps_blank_lines_witness:
  "files (example_files ''deps'' (''a'' @ [CHR 0x0A, CHR 0x0A] @ ''b'' @ [CHR 0x0A])) ''deps''
     = Some (''a'' @ [CHR 0x0A, CHR 0x0A] @ ''b'' @ [CHR 0x0A])
   \<and> Scanner_lines (''a'' @ [CHR 0x0A, CHR 0x0A] @ ''b'' @ [CHR 0x0A]) = ([''a'', [], ''b''], False)
   \<and> Read (example_files ''deps'' (''a'' @ [CHR 0x0A, CHR 0x0A] @ ''b'' @ [CHR 0x0A])) ''deps'' []
     = Returned [Read_line ''deps'' ''a'', Read_line ''deps'' [], Read_line ''deps'' ''b''] None
   \<and> Read_line ''deps'' [] =
       \<lparr>Configuration = ''deps'', UrlOrPath = [], Version = [], RelativePath = ''/'',
        Name = ''.'', Modified = False, URL = None\<rparr>"
proof -
  let ?c = "''a'' @ [CHR 0x0A, CHR 0x0A] @ ''b'' @ [CHR 0x0A]"
  have f: "files (example_files ''deps'' ?c) ''deps'' = Some ?c"
    by (simp add: example_files_def)
  have s: "Scanner_lines ?c = ([''a'', [], ''b''], False)"
    by (simp add: Read_eval)
  have r: "Read (example_files ''deps'' ?c) ''deps'' []
     = Returned [Read_line ''deps'' ''a'', Read_line ''deps'' [], Read_line ''deps'' ''b''] None"
    by (simp add: Read_eval example_files_def)
  show ?thesis
    using f s r Read_keeps_blank_lines [OF f s r] by simp
qed

text \<open>The three lines \<open>a\<close>, empty, \<open>b\<close> give three libraries.\<close>

theorem Read_blank_line_is_an_entry:
  "Read (example_files ''deps'' (''a'' @ [CHR 0x0A, CHR 0x0A] @ ''b'' @ [CHR 0x0A])) ''deps'' []
   = Returned
       [\<lparr>Configuration = ''deps'', UrlOrPath = ''a'', Version = [], RelativePath = ''/'',
         Name = ''a'', Modified = False, URL = None\<rparr>,
        \<lparr>Configuration = ''deps'', UrlOrPath = [], Version = [], RelativePath = ''/'',
         Name = ''.'', Modified = False, URL = None\<rparr>,
        \<lparr>Configuration = ''deps'', UrlOrPath = ''b'', Version = [], RelativePath = ''/'',
         Name = ''b'', Modified = False, URL = None\<rparr>]
       None"
proof -
  have a: "Read_line ''deps'' ''a'' = \<lparr>Configuration = ''deps'', UrlOrPath = ''a'', Version = [], RelativePath = ''/'',
         Name = ''a'', Modified = False, URL = None\<rparr>"
    by code_simp
  have b: "Read_line ''deps'' ''b'' = \<lparr>Configuration = ''deps'', UrlOrPath = ''b'', Version = [], RelativePath = ''/'',
         Name = ''b'', Modified = False, URL = None\<rparr>"
    by code_simp
  have "Read (example_files ''deps'' (''a'' @ [CHR 0x0A, CHR 0x0A] @ ''b'' @ [CHR 0x0A])) ''deps'' []
     = Returned [Read_line ''deps'' ''a'', Read_line ''deps'' [], Read_line ''deps'' ''b''] None"
    by (simp add: Read_eval example_files_def)
  then show ?thesis
    unfolding a b Read_line_blank .
qed

subsection \<open>SaveModified\<close>

lemma byConfiguration_loop_eq:
  "byConfiguration_loop libs m c =
     (if c \<in> Configuration ` set libs
      then Some ((case m c of None \<Rightarrow> [] | Some ls \<Rightarrow> ls) @ filter (\<lambda>l. Configuration l = c) libs)
      else m c)"
proof (induction libs arbitrary: m)
  case Nil
  show ?case by simp
next
  case (Cons lib libs)
  show ?case
    unfolding byConfiguration_loop.simps Cons.IH
    by (auto simp: empty_filter_conv image_iff split: option.splits)
qed

lemma Write_ok:
  "\<not> denied fs path \<Longrightarrow>
   Write libs path fs = (None, fs\<lparr>files := (files fs)(path \<mapsto> concat (map Write_line libs))\<rparr>)"
  by (simp add: Write_def)

lemma SaveModified_range_eq:
  assumes "distinct keys" and "\<forall>c \<in> set keys. \<not> denied fs c"
  shows "SaveModified_range force byC keys log fs =
     (None,
      log @ filter (\<lambda>c. case byC c of None \<Rightarrow> False | Some libs \<Rightarrow> force \<or> list_ex Modified libs) keys,
      fs\<lparr>files := (\<lambda>c. if c \<in> set keys
                          \<and> (case byC c of None \<Rightarrow> False | Some libs \<Rightarrow> force \<or> list_ex Modified libs)
                        then Some (concat (map Write_line (the (byC c))))
                        else files fs c)\<rparr>)"
  using assms
proof (induction keys arbitrary: log fs)
  case Nil
  show ?case by simp
next
  case (Cons k keys)
  let ?rewritten = "\<lambda>c. case byC c of None \<Rightarrow> False | Some libs \<Rightarrow> force \<or> list_ex Modified libs"
  from Cons.prems have d: "distinct keys" and k: "k \<notin> set keys" and nd: "\<not> denied fs k"
    and rest: "\<forall>c \<in> set keys. \<not> denied fs c"
    by auto
  show ?case
  proof (cases "?rewritten k")
    case False
    then have "SaveModified_range force byC (k # keys) log fs = SaveModified_range force byC keys log fs"
      by (auto split: option.splits)
    also note Cons.IH [OF d rest]
    finally show ?thesis
      using False by (auto intro!: filesystem.equality)
  next
    case True
    then obtain libs where libs: "byC k = Some libs" "force \<or> list_ex Modified libs"
      by (auto split: option.splits)
    let ?fs = "fs\<lparr>files := (files fs)(k \<mapsto> concat (map Write_line libs))\<rparr>"
    have rest': "\<forall>c \<in> set keys. \<not> denied ?fs c"
      using rest by simp
    have "SaveModified_range force byC (k # keys) log fs
        = SaveModified_range force byC keys (log @ [k]) ?fs"
      using libs nd by (simp add: Write_ok)
    also note Cons.IH [OF d rest']
    finally show ?thesis
      using True libs k by (auto intro!: filesystem.equality)
  qed
qed

text \<open>
  C9. \<open>keys\<close> is the order in which Go visits the configurations of the set, each once.
  When no file of the set is refused by \<open>os.OpenFile\<close>, \<open>SaveModified\<close> returns no
  error; with \<open>force\<close> false it writes exactly the configurations that have a library
  with \<open>Modified\<close> set, with \<open>force\<close> true every configuration of the set. A file it
  writes holds the lines of the libraries of its configuration, in their order; every
  other file is as it was.
\<close>

theorem SaveModified_rewrites:
  assumes "distinct keys" and "set keys = Configuration ` set libraries"
    and "\<forall>c \<in> set keys. \<not> denied fs c"
  shows "SaveModified keys libraries force fs =
     (None,
      filter (\<lambda>c. force \<or> (\<exists>l \<in> set libraries. Configuration l = c \<and> Modified l)) keys,
      fs\<lparr>files := (\<lambda>c. if c \<in> set keys
                          \<and> (force \<or> (\<exists>l \<in> set libraries. Configuration l = c \<and> Modified l))
                        then Some (concat (map Write_line (filter (\<lambda>l. Configuration l = c) libraries)))
                        else files fs c)\<rparr>)"
proof -
  let ?byC = "byConfiguration_loop libraries Map.empty"
  have byC: "\<And>c. c \<in> set keys \<Longrightarrow> ?byC c = Some (filter (\<lambda>l. Configuration l = c) libraries)"
    using assms(2) by (simp add: byConfiguration_loop_eq)
  have rew: "\<And>c. c \<in> set keys \<Longrightarrow>
      (case ?byC c of None \<Rightarrow> False | Some libs \<Rightarrow> force \<or> list_ex Modified libs)
      = (force \<or> (\<exists>l \<in> set libraries. Configuration l = c \<and> Modified l))"
    by (auto simp: byC list_ex_iff)
  have filt: "filter (\<lambda>c. case ?byC c of None \<Rightarrow> False | Some libs \<Rightarrow> force \<or> list_ex Modified libs) keys
      = filter (\<lambda>c. force \<or> (\<exists>l \<in> set libraries. Configuration l = c \<and> Modified l)) keys"
    by (rule filter_cong) (simp_all add: rew)
  show ?thesis
    unfolding SaveModified_def SaveModified_range_eq [OF assms(1) assms(3)] filt
    by (auto intro!: filesystem.equality ext simp: byC list_ex_iff)
qed

theorem SaveModified_rewrites_witness:
  "distinct [''deps2'', ''deps1'']
   \<and> set [''deps2'', ''deps1'']
       = Configuration ` set [(Read_line ''deps1'' ''a 1.0'')\<lparr>Modified := True\<rparr>,
                              Read_line ''deps2'' ''a 2.0'']
   \<and> list_all (\<lambda>c. \<not> denied example_two_files c) [''deps2'', ''deps1'']
   \<and> fst (snd (SaveModified [''deps2'', ''deps1'']
         [(Read_line ''deps1'' ''a 1.0'')\<lparr>Modified := True\<rparr>, Read_line ''deps2'' ''a 2.0''] False
         example_two_files))
       = [''deps1'']
   \<and> fst (snd (SaveModified [''deps2'', ''deps1'']
         [(Read_line ''deps1'' ''a 1.0'')\<lparr>Modified := True\<rparr>, Read_line ''deps2'' ''a 2.0''] True
         example_two_files))
       = [''deps2'', ''deps1'']"
proof -
  let ?libs = "[(Read_line ''deps1'' ''a 1.0'')\<lparr>Modified := True\<rparr>, Read_line ''deps2'' ''a 2.0'']"
  have c: "Configuration ((Read_line ''deps1'' ''a 1.0'')\<lparr>Modified := True\<rparr>) = ''deps1''"
    "Configuration (Read_line ''deps2'' ''a 2.0'') = ''deps2''"
    "Modified ((Read_line ''deps1'' ''a 1.0'')\<lparr>Modified := True\<rparr>)"
    "\<not> Modified (Read_line ''deps2'' ''a 2.0'')"
    by (simp_all add: Read_line_def Let_def)
  have d: "distinct [''deps2'', ''deps1'']" by simp
  have k: "set [''deps2'', ''deps1''] = Configuration ` set ?libs"
    by (auto simp: c)
  have n: "\<forall>c \<in> set [''deps2'', ''deps1'']. \<not> denied example_two_files c"
    by (simp add: example_two_files_def)
  show ?thesis
    using SaveModified_rewrites [OF d k n, of False] SaveModified_rewrites [OF d k n, of True] d k n
    by (simp add: c)
qed

subsection \<open>Which sources have a URL\<close>











lemma Read_line_local_b:
  "Read_line fn ''/local/b'' =
     \<lparr>Configuration = fn, UrlOrPath = ''/local/b'', Version = [], RelativePath = ''/'', Name = ''b'',
      Modified = False,
      URL = Some \<lparr>Scheme = [], Opaque = [], Path = ''/local/b'', RawQuery = [], ForceQuery = False\<rparr>\<rparr>"
  by code_simp

lemma Read_line_relative_b:
  "Read_line fn ''local/b'' =
     \<lparr>Configuration = fn, UrlOrPath = ''local/b'', Version = [], RelativePath = ''/'', Name = ''b'',
      Modified = False, URL = None\<rparr>"
  by code_simp














subsection \<open>Read after Write\<close>

lemma dropCR_subset: "set (dropCR p) \<subseteq> set p"
  by (auto simp: dropCR_def dest: in_set_butlastD)

lemma dropCR_id: "CHR 0x0D \<notin> set p \<Longrightarrow> dropCR p = p"
  by (cases p rule: rev_cases) (auto simp: dropCR_def)

lemma scan_pieces_tokens:
  "scan_pieces ps = (tokens, too_long) \<Longrightarrow> t \<in> set tokens \<Longrightarrow> \<exists>p \<in> set ps. set t \<subseteq> set p"
proof (induction ps arbitrary: tokens too_long rule: scan_pieces.induct)
  case 1
  then show ?case by simp
next
  case (2 p)
  then show ?case
    using dropCR_subset [of p] by (auto split: if_splits)
next
  case (3 p q ps)
  show ?case
  proof (cases "MaxScanTokenSize \<le> length p")
    case True
    with 3 show ?thesis by simp
  next
    case False
    obtain ts e where r: "scan_pieces (q # ps) = (ts, e)"
      by (cases "scan_pieces (q # ps)")
    with False "3.prems" have "tokens = dropCR p # ts"
      by simp
    with "3.prems"(2) have "t = dropCR p \<or> t \<in> set ts"
      by simp
    then show ?thesis
    proof
      assume "t = dropCR p"
      then show ?thesis using dropCR_subset [of p] by auto
    next
      assume "t \<in> set ts"
      from "3.IH" [OF False r this] show ?thesis by auto
    qed
  qed
qed

lemma Scanner_lines_no_newline:
  assumes "Scanner_lines content = (lines, too_long)" and "line \<in> set lines"
  shows "CHR 0x0A \<notin> set line"
proof -
  from assms obtain p where p: "p \<in> set (strings_Split content (CHR 0x0A))" "set line \<subseteq> set p"
    unfolding Scanner_lines_def using scan_pieces_tokens by blast
  from p(1) have "CHR 0x0A \<notin> set p"
    by (rule strings_Split_fields)
  with p(2) show ?thesis by auto
qed

lemma scan_pieces_terminated:
  assumes "\<forall>p \<in> set ps. length p < MaxScanTokenSize"
  shows "scan_pieces (ps @ [[]]) = (map dropCR ps, False)"
  using assms
proof (induction ps)
  case Nil
  show ?case by simp
next
  case (Cons p ps)
  obtain q qs where q: "ps @ [[]] = q # qs"
    by (cases "ps @ [[]]") auto
  have "scan_pieces (q # qs) = (map dropCR ps, False)"
    using Cons q by simp
  moreover have "\<not> MaxScanTokenSize \<le> length p"
    using Cons.prems by simp
  ultimately have "scan_pieces (p # q # qs) = (map dropCR (p # ps), False)"
    by simp
  then show ?case
    using q by simp
qed

lemma strings_Split_terminated:
  assumes "\<forall>b \<in> set bodies. sep \<notin> set b"
  shows "strings_Split (concat (map (\<lambda>b. b @ [sep]) bodies)) sep = bodies @ [[]]"
  using assms
proof (induction bodies)
  case Nil
  show ?case by simp
next
  case (Cons b bodies)
  then show ?case
    using strings_Split_append [of sep b "concat (map (\<lambda>b. b @ [sep]) bodies)"] by simp
qed

lemma Scanner_lines_terminated:
  assumes "\<forall>b \<in> set bodies. CHR 0x0A \<notin> set b \<and> CHR 0x0D \<notin> set b \<and> length b < MaxScanTokenSize"
  shows "Scanner_lines (concat (map (\<lambda>b. b @ [CHR 0x0A]) bodies)) = (bodies, False)"
proof -
  have "map dropCR bodies = bodies"
    using assms by (simp add: map_idI dropCR_id)
  then show ?thesis
    unfolding Scanner_lines_def
    using assms by (simp add: strings_Split_terminated scan_pieces_terminated)
qed

lemma strings_Split_two:
  "sep \<notin> set a \<Longrightarrow> sep \<notin> set b \<Longrightarrow> strings_Split (a @ sep # b) sep = [a, b]"
  by (simp add: strings_Split_append strings_Split_no_sep)

lemma strings_Split_three:
  "sep \<notin> set a \<Longrightarrow> sep \<notin> set b \<Longrightarrow> sep \<notin> set c \<Longrightarrow>
   strings_Split (a @ sep # b @ sep # c) sep = [a, b, c]"
  by (simp add: strings_Split_append strings_Split_no_sep)

lemma Read_line_fields_no_sep:
  assumes "c = CHR '' '' \<or> c \<notin> set line"
  shows "c \<notin> set (UrlOrPath (Read_line fn line))"
    and "c \<notin> set (Version (Read_line fn line))"
    and "c = CHR ''/'' \<or> c \<notin> set (RelativePath (Read_line fn line))"
proof -
  let ?fields = "strings_Split line (CHR '' '')"
  have f: "c \<notin> set f" if "f \<in> set ?fields" for f
    using assms strings_Split_fields [OF that] strings_Split_other [OF that] by auto
  have "?fields \<noteq> []"
    by (rule strings_Split_not_Nil)
  then have "?fields ! 0 \<in> set ?fields"
    by (simp add: nth_mem)
  then show "c \<notin> set (UrlOrPath (Read_line fn line))"
    using f by (simp add: Read_line_def Let_def)
  show "c \<notin> set (Version (Read_line fn line))"
    using f [of "?fields ! 1"] by (simp add: Read_line_def Let_def)
  show "c = CHR ''/'' \<or> c \<notin> set (RelativePath (Read_line fn line))"
    using f [of "?fields ! 2"] by (simp add: Read_line_def Let_def)
qed

lemma Read_line_of_fields:
  assumes "strings_Split line2 (CHR '' '') ! 0 = UrlOrPath (Read_line fn line)"
    and "(if length (strings_Split line2 (CHR '' '')) > 2 then strings_Split line2 (CHR '' '') ! 2
          else ''/'') = RelativePath (Read_line fn line)"
  shows "Read_line fn line2 =
           (Read_line fn line)\<lparr>Version :=
              (if length (strings_Split line2 (CHR '' '')) > 1 then strings_Split line2 (CHR '' '') ! 1
               else [])\<rparr>"
proof -
  let ?f2 = "strings_Split line2 (CHR '' '')" and ?f = "strings_Split line (CHR '' '')"
  have U: "UrlOrPath (Read_line fn line) = ?f ! 0"
    and R: "RelativePath (Read_line fn line) = (if length ?f > 2 then ?f ! 2 else ''/'')"
    by (simp_all add: Read_line_def Let_def)
  note a = assms(1) [unfolded U] and b = assms(2) [unfolded R]
  show ?thesis
    unfolding Read_line_def Let_def a b by simp
qed

lemma Write_line_body:
  "Write_line lib =
     (UrlOrPath lib @ CHR '' '' # (if Version lib = [] then ''*'' else Version lib)
        @ (if RelativePath lib \<noteq> ''/'' then CHR '' '' # RelativePath lib else []))
     @ [CHR 0x0A]"
  by (simp add: Write_line_def Let_def)

lemma Read_line_Write_line:
  assumes "lib = Read_line fn line"
  shows "Read_line fn (butlast (Write_line lib)) =
           lib\<lparr>Version := (if Version lib = [] then ''*'' else Version lib)\<rparr>"
proof -
  let ?v = "if Version lib = [] then ''*'' else Version lib"
  have u: "CHR '' '' \<notin> set (UrlOrPath lib)" and v: "CHR '' '' \<notin> set ?v"
    and r: "CHR '' '' \<notin> set (RelativePath lib)"
    using Read_line_fields_no_sep [of "CHR '' ''" line fn] assms by auto
  show ?thesis
  proof (cases "RelativePath lib = ''/''")
    case True
    then have b: "butlast (Write_line lib) = UrlOrPath lib @ CHR '' '' # ?v"
      by (simp add: Write_line_body butlast_append)
    have s: "strings_Split (butlast (Write_line lib)) (CHR '' '') = [UrlOrPath lib, ?v]"
      unfolding b using u v by (rule strings_Split_two)
    show ?thesis
      using Read_line_of_fields [of "butlast (Write_line lib)" fn line] True assms
      unfolding s by simp
  next
    case False
    then have b: "butlast (Write_line lib) = UrlOrPath lib @ CHR '' '' # ?v @ CHR '' '' # RelativePath lib"
      by (simp add: Write_line_body butlast_append)
    have s: "strings_Split (butlast (Write_line lib)) (CHR '' '') = [UrlOrPath lib, ?v, RelativePath lib]"
      unfolding b using u v r by (rule strings_Split_three)
    show ?thesis
      using Read_line_of_fields [of "butlast (Write_line lib)" fn line] False assms
      unfolding s by simp
  qed
qed

lemma Write_line_no_newline:
  assumes "lib = Read_line fn line" and "CHR 0x0A \<notin> set line"
  shows "CHR 0x0A \<notin> set (butlast (Write_line lib))"
proof -
  have "CHR 0x0A \<notin> set (UrlOrPath lib)" "CHR 0x0A \<notin> set (Version lib)"
    "CHR 0x0A \<notin> set (RelativePath lib)"
    using Read_line_fields_no_sep [of "CHR 0x0A" line fn] assms by auto
  then show ?thesis
    by (simp add: Write_line_body butlast_append)
qed

lemma Read_Returned_None:
  assumes "Read fs fn libs0 = Returned libs None"
  shows "\<exists>content lines. files fs fn = Some content
           \<and> Scanner_lines content = (lines, False)
           \<and> Read_loop fn lines Map.empty libs0 = Inr libs"
proof -
  from assms obtain content where c: "files fs fn = Some content"
    by (cases "files fs fn") (auto simp: Read_def)
  obtain lines too_long where s: "Scanner_lines content = (lines, too_long)"
    by (cases "Scanner_lines content")
  from assms c s have "Read_loop fn lines Map.empty libs0 = Inr libs" and "\<not> too_long"
    by (auto simp: Read_def split: sum.splits if_splits)
  with c s show ?thesis by auto
qed

lemma Write_line_butlast: "butlast (Write_line l) @ [CHR 0x0A] = Write_line l"
proof -
  have "Write_line l \<noteq> []" and "last (Write_line l) = CHR 0x0A"
    by (simp_all add: Write_line_body)
  then show ?thesis
    using append_butlast_last_id [of "Write_line l"] by simp
qed

lemma Read_line_a:
  "Read_line fn ''a'' =
     \<lparr>Configuration = fn, UrlOrPath = ''a'', Version = [], RelativePath = ''/'', Name = ''a'',
      Modified = False, URL = None\<rparr>"
  by code_simp

lemma Read_line_a_star_sub:
  "Read_line fn ''a * /sub'' =
     \<lparr>Configuration = fn, UrlOrPath = ''a'', Version = ''*'', RelativePath = ''/sub'',
      Name = ''a_sub'', Modified = False, URL = None\<rparr>"
  by code_simp

lemma Read_line_a_star:
  "Read_line fn ''a *'' =
     \<lparr>Configuration = fn, UrlOrPath = ''a'', Version = ''*'', RelativePath = ''/'', Name = ''a'',
      Modified = False, URL = None\<rparr>"
  by code_simp

lemma Read_line_a_1_0:
  "Read_line fn ''a 1.0'' =
     \<lparr>Configuration = fn, UrlOrPath = ''a'', Version = ''1.0'', RelativePath = ''/'', Name = ''a'',
      Modified = False, URL = None\<rparr>"
  by code_simp

text \<open>
  C6, as the code has it. Take a manifest that \<open>Read\<close> parses with no error, whose
  written lines hold no carriage return and fit the buffer of the scanner, and in which
  no entry with the empty version is followed by an entry of the same source with a
  version other than the empty one or \<open>*\<close>. Then \<open>Write\<close> succeeds on a file that can be
  opened, and \<open>Read\<close> of what it wrote returns the entries of the first parse with every
  empty version replaced by \<open>*\<close>, all other fields equal.
\<close>

theorem Read_Write_Read:
  assumes first: "Read fs fn [] = Returned libs None"
    and writable: "\<not> denied fs fn"
    and fits: "\<forall>l \<in> set libs. CHR 0x0D \<notin> set (Write_line l) \<and> length (Write_line l) \<le> MaxScanTokenSize"
    and pins: "\<forall>i j. i < j \<and> j < length libs \<and> UrlOrPath (libs ! i) = UrlOrPath (libs ! j)
                  \<and> Version (libs ! i) = []
                \<longrightarrow> Version (libs ! j) = [] \<or> Version (libs ! j) = ''*''"
  shows "\<exists>fs'. Write libs fn fs = (None, fs')
           \<and> Read fs' fn [] =
               Returned (map (\<lambda>l. l\<lparr>Version := (if Version l = [] then ''*'' else Version l)\<rparr>) libs)
                 None"
proof -
  let ?star = "\<lambda>l. l\<lparr>Version := (if Version l = [] then ''*'' else Version l)\<rparr>"
  let ?body = "\<lambda>l. butlast (Write_line l)"
  let ?fs = "fs\<lparr>files := (files fs)(fn \<mapsto> concat (map Write_line libs))\<rparr>"
  from first obtain content lines where content: "files fs fn = Some content"
    and lines: "Scanner_lines content = (lines, False)"
    and loop: "Read_loop fn lines Map.empty [] = Inr libs"
    using Read_Returned_None by blast
  have libs: "libs = map (Read_line fn) lines"
    using Read_loop_Inr [OF loop] by simp
  have parsed: "\<exists>line. l = Read_line fn line \<and> CHR 0x0A \<notin> set line" if "l \<in> set libs" for l
    using that libs Scanner_lines_no_newline [OF lines] by auto
  have reparse: "Read_line fn (?body l) = ?star l" if "l \<in> set libs" for l
    using parsed [OF that] Read_line_Write_line by blast
  have written: "Write libs fn fs = (None, ?fs)"
    using writable by (simp add: Write_def)
  have bodies: "\<forall>b \<in> set (map ?body libs).
      CHR 0x0A \<notin> set b \<and> CHR 0x0D \<notin> set b \<and> length b < MaxScanTokenSize"
  proof
    fix b assume "b \<in> set (map ?body libs)"
    then obtain l where l: "l \<in> set libs" "b = ?body l" by auto
    from parsed [OF l(1)] have "CHR 0x0A \<notin> set b"
      unfolding l(2) using Write_line_no_newline by blast
    moreover have "CHR 0x0D \<notin> set b"
      using fits l by (auto dest: in_set_butlastD)
    moreover have "length b < MaxScanTokenSize"
      using fits l by (auto simp: Write_line_body)
    ultimately show "CHR 0x0A \<notin> set b \<and> CHR 0x0D \<notin> set b \<and> length b < MaxScanTokenSize"
      by simp
  qed
  have "concat (map Write_line libs) = concat (map (\<lambda>b. b @ [CHR 0x0A]) (map ?body libs))"
    by (simp add: Write_line_butlast comp_def)
  then have scan: "Scanner_lines (concat (map Write_line libs)) = (map ?body libs, False)"
    using Scanner_lines_terminated [OF bodies] by simp
  have entries: "map (Read_line fn) (map ?body libs) = map ?star libs"
    using reparse by simp
  have no_first: "\<not> conflicting (libs ! i) (libs ! j)" if "i < j" "j < length libs" for i j
  proof -
    have "\<not> (\<exists>u. Read_loop fn lines Map.empty [] = Inl u)"
      using loop by simp
    then have "\<not> (\<exists>i j. i < j \<and> j < length lines
            \<and> conflicting (Read_line fn (lines ! i)) (Read_line fn (lines ! j)))"
      unfolding Read_loop_Inl_iff by simp
    with that show ?thesis
      unfolding libs by auto
  qed
  have no_second: "\<not> (\<exists>i j. i < j \<and> j < length (map ?body libs)
        \<and> conflicting (Read_line fn (map ?body libs ! i)) (Read_line fn (map ?body libs ! j)))"
  proof
    assume "\<exists>i j. i < j \<and> j < length (map ?body libs)
        \<and> conflicting (Read_line fn (map ?body libs ! i)) (Read_line fn (map ?body libs ! j))"
    then obtain i j where ij: "i < j" "j < length libs"
      and c: "conflicting (Read_line fn (?body (libs ! i))) (Read_line fn (?body (libs ! j)))"
      by auto
    have "libs ! i \<in> set libs" "libs ! j \<in> set libs"
      using ij by simp_all
    with c have c': "conflicting (?star (libs ! i)) (?star (libs ! j))"
      by (simp add: reparse)
    show False
    proof (cases "Version (libs ! i) = []")
      case True
      from c' have same: "UrlOrPath (libs ! i) = UrlOrPath (libs ! j)"
        by (simp add: conflicting_def)
      from pins ij same True have "Version (libs ! j) = [] \<or> Version (libs ! j) = ''*''"
        by blast
      with c' True show False
        by (auto simp: conflicting_def)
    next
      case False
      with c' no_first [OF ij] show False
        by (auto simp: conflicting_def split: if_splits)
    qed
  qed
  have "\<not> (\<exists>u. Read_loop fn (map ?body libs) Map.empty [] = Inl u)"
    unfolding Read_loop_Inl_iff using no_second by (simp add: map_conflict_def map_index_def)
  then obtain libs' where second: "Read_loop fn (map ?body libs) Map.empty [] = Inr libs'"
    by (cases "Read_loop fn (map ?body libs) Map.empty []") auto
  from Read_loop_Inr [OF second] have "libs' = map ?star libs"
    using entries by simp
  with second have "Read ?fs fn [] = Returned (map ?star libs) None"
    by (simp add: Read_def scan)
  with written show ?thesis by blast
qed

theorem Read_Write_Read_witness:
  "Read (example_files ''deps'' (''a'' @ CHR 0x0A # ''a * /sub'' @ [CHR 0x0A])) ''deps'' []
     = Returned [Read_line ''deps'' ''a'', Read_line ''deps'' ''a * /sub''] None
   \<and> \<not> denied (example_files ''deps'' (''a'' @ CHR 0x0A # ''a * /sub'' @ [CHR 0x0A])) ''deps''
   \<and> list_all (\<lambda>l. CHR 0x0D \<notin> set (Write_line l) \<and> length (Write_line l) \<le> MaxScanTokenSize)
         [Read_line ''deps'' ''a'', Read_line ''deps'' ''a * /sub'']
   \<and> UrlOrPath (Read_line ''deps'' ''a'') = UrlOrPath (Read_line ''deps'' ''a * /sub'')
   \<and> Version (Read_line ''deps'' ''a'') = []
   \<and> Version (Read_line ''deps'' ''a * /sub'') = ''*''
   \<and> (\<exists>fs'. Write [Read_line ''deps'' ''a'', Read_line ''deps'' ''a * /sub''] ''deps''
                (example_files ''deps'' (''a'' @ CHR 0x0A # ''a * /sub'' @ [CHR 0x0A]))
              = (None, fs')
            \<and> files fs' ''deps'' = Some (''a *'' @ CHR 0x0A # ''a * /sub'' @ [CHR 0x0A])
            \<and> Read fs' ''deps'' []
                = Returned [Read_line ''deps'' ''a *'', Read_line ''deps'' ''a * /sub''] None)"
proof -
  let ?fs = "example_files ''deps'' (''a'' @ CHR 0x0A # ''a * /sub'' @ [CHR 0x0A])"
  let ?libs = "[Read_line ''deps'' ''a'', Read_line ''deps'' ''a * /sub'']"
  have first: "Read ?fs ''deps'' [] = Returned ?libs None"
    by (simp add: Read_eval example_files_def)
  have writable: "\<not> denied ?fs ''deps''"
    by (simp add: example_files_def)
  have fits: "\<forall>l \<in> set ?libs. CHR 0x0D \<notin> set (Write_line l) \<and> length (Write_line l) \<le> MaxScanTokenSize"
    by (simp add: Read_line_a Read_line_a_star_sub Write_line_def MaxScanTokenSize_def)
  have pins: "\<forall>i j. i < j \<and> j < length ?libs \<and> UrlOrPath (?libs ! i) = UrlOrPath (?libs ! j)
                  \<and> Version (?libs ! i) = []
                \<longrightarrow> Version (?libs ! j) = [] \<or> Version (?libs ! j) = ''*''"
  proof (intro allI impI)
    fix i j :: nat
    assume "i < j \<and> j < length ?libs \<and> UrlOrPath (?libs ! i) = UrlOrPath (?libs ! j)
                  \<and> Version (?libs ! i) = []"
    then have "j = 1" by simp
    then show "Version (?libs ! j) = [] \<or> Version (?libs ! j) = ''*''"
      by (simp add: Read_line_a_star_sub)
  qed
  from Read_Write_Read [OF first writable fits pins]
  obtain fs' where w: "Write ?libs ''deps'' ?fs = (None, fs')"
    and r: "Read fs' ''deps'' [] =
      Returned (map (\<lambda>l. l\<lparr>Version := (if Version l = [] then ''*'' else Version l)\<rparr>) ?libs) None"
    by blast
  from w have f: "files fs' ''deps'' = Some (''a *'' @ CHR 0x0A # ''a * /sub'' @ [CHR 0x0A])"
    by (auto simp: Write_def Write_line_def Read_line_a Read_line_a_star_sub example_files_def)
  from r have r': "Read fs' ''deps'' [] = Returned [Read_line ''deps'' ''a *'', Read_line ''deps'' ''a * /sub''] None"
    by (simp add: Read_line_a Read_line_a_star_sub Read_line_a_star)
  have "list_all (\<lambda>l. CHR 0x0D \<notin> set (Write_line l) \<and> length (Write_line l) \<le> MaxScanTokenSize) ?libs"
    using fits by (simp add: list_all_iff)
  moreover have "UrlOrPath (Read_line ''deps'' ''a'') = UrlOrPath (Read_line ''deps'' ''a * /sub'')"
    "Version (Read_line ''deps'' ''a'') = []" "Version (Read_line ''deps'' ''a * /sub'') = ''*''"
    by (simp_all add: Read_line_a Read_line_a_star_sub)
  ultimately show ?thesis
    using first writable w f r' by blast
qed

text \<open>
  The manifest \<open>a\<close>, \<open>a 1.0\<close> parses with no error; it is written as \<open>a *\<close>,
  \<open>a 1.0\<close>, and the parse of that ends the process with a version conflict.
\<close>

theorem Read_Write_Read_conflict:
  "Read (example_files ''deps'' (''a'' @ CHR 0x0A # ''a 1.0'' @ [CHR 0x0A])) ''deps'' []
     = Returned [Read_line ''deps'' ''a'', Read_line ''deps'' ''a 1.0''] None
   \<and> Write [Read_line ''deps'' ''a'', Read_line ''deps'' ''a 1.0''] ''deps''
         (example_files ''deps'' (''a'' @ CHR 0x0A # ''a 1.0'' @ [CHR 0x0A]))
       = (None, example_files ''deps'' (''a *'' @ CHR 0x0A # ''a 1.0'' @ [CHR 0x0A]))
   \<and> Read (example_files ''deps'' (''a *'' @ CHR 0x0A # ''a 1.0'' @ [CHR 0x0A])) ''deps'' []
       = Fatal ''a''"
proof -
  have "Read (example_files ''deps'' (''a'' @ CHR 0x0A # ''a 1.0'' @ [CHR 0x0A])) ''deps'' []
     = Returned [Read_line ''deps'' ''a'', Read_line ''deps'' ''a 1.0''] None"
    by (simp add: Read_eval example_files_def)
  moreover have "Write [Read_line ''deps'' ''a'', Read_line ''deps'' ''a 1.0''] ''deps''
         (example_files ''deps'' (''a'' @ CHR 0x0A # ''a 1.0'' @ [CHR 0x0A]))
       = (None, example_files ''deps'' (''a *'' @ CHR 0x0A # ''a 1.0'' @ [CHR 0x0A]))"
    by (simp add: Write_def Write_line_def Read_line_a Read_line_a_1_0 example_files_def)
  moreover have "Read (example_files ''deps'' (''a *'' @ CHR 0x0A # ''a 1.0'' @ [CHR 0x0A])) ''deps'' []
       = Fatal ''a''"
    by (simp add: Read_eval example_files_def)
  ultimately show ?thesis by (intro conjI)
qed

section \<open>Properties of Refresh\<close>

lemma Refresh_override_disallowed: "Refresh_override sys directory False lib w = (Inr [], w)"
  by (simp add: Refresh_override_def)

lemma Refresh_override_not_UnableToFindDependency:
  "fst (Refresh_override sys directory allowLocal lib w) \<noteq> Inl (UnableToFindDependency l)"
  by (auto simp: Refresh_override_def checkForLocalOverride_def Let_def
      split: option.splits sum.splits prod.splits)

lemma Read_line_ssh:
  "Read_line fn ''ssh://x/a.git 1.0'' =
     \<lparr>Configuration = fn, UrlOrPath = ''ssh://x/a.git'', Version = ''1.0'', RelativePath = ''/'',
      Name = ''a'', Modified = False,
      URL = Some \<lparr>Scheme = ''ssh'', Opaque = [], Path = ''/a.git'', RawQuery = [], ForceQuery = False\<rparr>\<rparr>"
  by code_simp

lemma Read_line_missing_b:
  "Read_line fn ''missing/b'' =
     \<lparr>Configuration = fn, UrlOrPath = ''missing/b'', Version = [], RelativePath = ''/'', Name = ''b'',
      Modified = False, URL = None\<rparr>"
  by code_simp


text \<open>
  C1 on the code. With local overrides not allowed, the library of the line \<open>/local/b\<close>
  has a URL and is resolved by \<open>CloneDependency\<close> alone, whatever directories exist: the
  result is the error of the clone, or the path of the clone made absolute. The library
  of the relative path \<open>local/b\<close> has no URL, and its resolution ends with
  \<open>UnableToFindDependency\<close> on every system, also where \<open>local/b\<close> is a directory:
  the branch that finds the directory assigns no dependency path. On the example system,
  where both directories exist, \<open>Refresh\<close> fails for both manifests.
\<close>

theorem Refresh_lib_local_path_unresolved:
  "Refresh_lib sys directory useHead False (Read_line fn ''/local/b'') w =
     (case CloneDependency sys w (Read_line fn ''/local/b'') directory useHead of
        (Inl err, w1) \<Rightarrow> (Inl (External err), w1)
      | (Inr clonePath, w1) \<Rightarrow>
          if clonePath = [] then (Inl (UnableToFindDependency (Read_line fn ''/local/b'')), w1)
          else
            (case filepath_Abs sys w1 clonePath of
               Inl err \<Rightarrow> (Inl (External err), w1)
             | Inr absolute \<Rightarrow>
                 (Inr \<lparr>DependencyInfo_Name = ''b'', DependencyInfo_Path = absolute,
                       DependencyInfo_RelativePath = ''/''\<rparr>, w1)))
   \<and> fst (Refresh_lib sys directory useHead False (Read_line fn ''local/b'') w)
       = Inl (UnableToFindDependency (Read_line fn ''local/b''))
   \<and> Refresh example_system [Read_line ''deps'' ''/local/b''] ''work'' False False [''/local/b'']
       = (Some (External ''repository not found''), [''/local/b''])
   \<and> Refresh example_system [Read_line ''deps'' ''local/b''] ''work'' False False [''local/b'']
       = (Some (UnableToFindDependency (Read_line ''deps'' ''local/b'')), [''local/b''])"
proof -
  have a: "Refresh_lib sys directory useHead False (Read_line fn ''/local/b'') w =
     (case CloneDependency sys w (Read_line fn ''/local/b'') directory useHead of
        (Inl err, w1) \<Rightarrow> (Inl (External err), w1)
      | (Inr clonePath, w1) \<Rightarrow>
          if clonePath = [] then (Inl (UnableToFindDependency (Read_line fn ''/local/b'')), w1)
          else
            (case filepath_Abs sys w1 clonePath of
               Inl err \<Rightarrow> (Inl (External err), w1)
             | Inr absolute \<Rightarrow>
                 (Inr \<lparr>DependencyInfo_Name = ''b'', DependencyInfo_Path = absolute,
                       DependencyInfo_RelativePath = ''/''\<rparr>, w1)))" for sys :: "'a system" and w fn directory useHead
    unfolding Refresh_lib_def Refresh_override_disallowed Refresh_fetch_def Read_line_local_b
    by (simp split: prod.splits sum.splits)
  have b: "fst (Refresh_lib sys directory useHead False (Read_line fn ''local/b'') w)
       = Inl (UnableToFindDependency (Read_line fn ''local/b''))" for sys :: "'a system" and w fn directory useHead
    unfolding Refresh_lib_def Refresh_override_disallowed Refresh_fetch_def Read_line_relative_b
    by (simp split: prod.splits sum.splits option.splits)
  have "Refresh_lib example_system ''work'' False False (Read_line ''deps'' ''/local/b'') [''/local/b'']
      = (Inl (External ''repository not found''), [''/local/b''])"
    unfolding Refresh_lib_def Refresh_override_disallowed Refresh_fetch_def Read_line_local_b
    by (simp add: example_system_def)
  then have c: "Refresh example_system [Read_line ''deps'' ''/local/b''] ''work'' False False [''/local/b'']
       = (Some (External ''repository not found''), [''/local/b''])"
    unfolding Refresh_def Refresh_loop.simps by simp
  have "Refresh_lib example_system ''work'' False False (Read_line ''deps'' ''local/b'') [''local/b'']
      = (Inl (UnableToFindDependency (Read_line ''deps'' ''local/b'')), [''local/b''])"
    unfolding Refresh_lib_def Refresh_override_disallowed Refresh_fetch_def Read_line_relative_b
    by (simp add: example_system_def)
  then have d: "Refresh example_system [Read_line ''deps'' ''local/b''] ''work'' False False [''local/b'']
       = (Some (UnableToFindDependency (Read_line ''deps'' ''local/b'')), [''local/b''])"
    unfolding Refresh_def Refresh_loop.simps by simp
  show ?thesis
    using a b c d by (intro conjI)
qed

lemma path_Join_b: "path_Join ''../'' ''b'' = ''../b''"
  by code_simp

text \<open>
  C2 on the code. A library with no URL for which no override is found is never resolved:
  also when its source exists and is a directory, its resolution ends with
  \<open>UnableToFindDependency\<close>, the error that the specification keeps, among local paths, for a
  source that does not exist or is not a directory.
\<close>

theorem Refresh_lib_existing_directory_not_found:
  assumes "URL lib = None"
    and "Refresh_override sys directory allowLocal lib w = (Inr [], w1)"
    and "os_Stat sys w1 (UrlOrPath lib) = Some s" and "IsDir s"
  shows "fst (Refresh_lib sys directory useHead allowLocal lib w) = Inl (UnableToFindDependency lib)"
  using assms
  by (simp add: Refresh_lib_def Refresh_fetch_def split: prod.splits)

theorem Refresh_lib_existing_directory_not_found_witness:
  "URL (Read_line ''deps'' ''local/b'') = None
   \<and> Refresh_override example_system ''work'' True (Read_line ''deps'' ''local/b'') [''local/b'']
       = (Inr [], [''local/b''])
   \<and> os_Stat example_system [''local/b''] (UrlOrPath (Read_line ''deps'' ''local/b''))
       = Some \<lparr>IsRegular = False, IsDir = True\<rparr>
   \<and> IsDir \<lparr>IsRegular = False, IsDir = True\<rparr>
   \<and> fst (Refresh_lib example_system ''work'' False True (Read_line ''deps'' ''local/b'') [''local/b''])
       = Inl (UnableToFindDependency (Read_line ''deps'' ''local/b''))"
proof -
  let ?lib = "Read_line ''deps'' ''local/b''"
  have u: "URL ?lib = None"
    by (simp add: Read_line_relative_b)
  have o: "Refresh_override example_system ''work'' True ?lib [''local/b''] = (Inr [], [''local/b''])"
    by (simp add: Refresh_override_def checkForLocalOverride_def Read_line_relative_b path_Join_b
        example_system_def)
  have s: "os_Stat example_system [''local/b''] (UrlOrPath ?lib) = Some \<lparr>IsRegular = False, IsDir = True\<rparr>"
    by (simp add: example_system_def Read_line_relative_b)
  have d: "IsDir \<lparr>IsRegular = False, IsDir = True\<rparr>"
    by simp
  show ?thesis
    using u o s d Refresh_lib_existing_directory_not_found [OF u o s d, of False] by (intro conjI)
qed

text \<open>
  The other cases of the error. \<open>r\<close> is the result of the override step. The error
  \<open>UnableToFindDependency\<close> is returned only when that step gave the empty path and the
  library has no URL, or has one and the clone returned the empty path with no error. A
  clone that fails ends the resolution with its own error, unchanged. With no override
  and no URL, a source that does not exist or is not a directory ends it with
  \<open>UnableToFindDependency\<close>.
\<close>

theorem Refresh_lib_UnableToFindDependency:
  assumes "Refresh_override sys directory allowLocal lib w = (r, w1)"
  shows "((\<exists>l. fst (Refresh_lib sys directory useHead allowLocal lib w) = Inl (UnableToFindDependency l))
          \<longrightarrow> r = Inr []
              \<and> (URL lib \<noteq> None \<longrightarrow> (\<exists>w2. CloneDependency sys w1 lib directory useHead = (Inr [], w2))))
       \<and> (r = Inr [] \<and> URL lib \<noteq> None \<longrightarrow>
            (case CloneDependency sys w1 lib directory useHead of
               (Inl err, w2) \<Rightarrow>
                 Refresh_lib sys directory useHead allowLocal lib w = (Inl (External err), w2)
             | (Inr clonePath, w2) \<Rightarrow>
                 clonePath = [] \<longrightarrow>
                 Refresh_lib sys directory useHead allowLocal lib w
                   = (Inl (UnableToFindDependency lib), w2)))
       \<and> (r = Inr [] \<and> URL lib = None
            \<and> (case os_Stat sys w1 (UrlOrPath lib) of None \<Rightarrow> True | Some s \<Rightarrow> \<not> IsDir s)
          \<longrightarrow> Refresh_lib sys directory useHead allowLocal lib w
                = (Inl (UnableToFindDependency lib), w1))"
proof (intro conjI impI)
  assume "\<exists>l. fst (Refresh_lib sys directory useHead allowLocal lib w) = Inl (UnableToFindDependency l)"
  then obtain l where l: "fst (Refresh_lib sys directory useHead allowLocal lib w) = Inl (UnableToFindDependency l)"
    by blast
  have "r \<noteq> Inl (UnableToFindDependency l)"
    using Refresh_override_not_UnableToFindDependency [of sys directory allowLocal lib w l] assms
    by simp
  with l assms show "r = Inr []"
    by (auto simp: Refresh_lib_def split: sum.splits prod.splits if_splits)
  then show "\<exists>w2. CloneDependency sys w1 lib directory useHead = (Inr [], w2)" if "URL lib \<noteq> None"
    using l assms that
    by (auto simp: Refresh_lib_def Refresh_fetch_def split: sum.splits prod.splits if_splits)
next
  assume "r = Inr [] \<and> URL lib \<noteq> None"
  then show "case CloneDependency sys w1 lib directory useHead of
               (Inl err, w2) \<Rightarrow>
                 Refresh_lib sys directory useHead allowLocal lib w = (Inl (External err), w2)
             | (Inr clonePath, w2) \<Rightarrow>
                 clonePath = [] \<longrightarrow>
                 Refresh_lib sys directory useHead allowLocal lib w
                   = (Inl (UnableToFindDependency lib), w2)"
    using assms
    by (auto simp: Refresh_lib_def Refresh_fetch_def split: sum.splits prod.splits)
next
  assume "r = Inr [] \<and> URL lib = None
            \<and> (case os_Stat sys w1 (UrlOrPath lib) of None \<Rightarrow> True | Some s \<Rightarrow> \<not> IsDir s)"
  then show "Refresh_lib sys directory useHead allowLocal lib w
                = (Inl (UnableToFindDependency lib), w1)"
    using assms
    by (auto simp: Refresh_lib_def Refresh_fetch_def split: sum.splits prod.splits option.splits)
qed
theorem Refresh_lib_UnableToFindDependency_witness:
  "Refresh_override example_system ''work'' False (Read_line ''deps'' ''ssh://x/a.git 1.0'') []
     = (Inr [], [])
   \<and> URL (Read_line ''deps'' ''ssh://x/a.git 1.0'') \<noteq> None
   \<and> CloneDependency example_system [] (Read_line ''deps'' ''ssh://x/a.git 1.0'') ''work'' False
       = (Inl ''repository not found'', [])
   \<and> Refresh_lib example_system ''work'' False False (Read_line ''deps'' ''ssh://x/a.git 1.0'') []
       = (Inl (External ''repository not found''), [])
   \<and> Refresh_override example_system ''work'' False (Read_line ''deps'' ''missing/b'') []
       = (Inr [], [])
   \<and> URL (Read_line ''deps'' ''missing/b'') = None
   \<and> os_Stat example_system [] (UrlOrPath (Read_line ''deps'' ''missing/b'')) = None
   \<and> Refresh_lib example_system ''work'' False False (Read_line ''deps'' ''missing/b'') []
       = (Inl (UnableToFindDependency (Read_line ''deps'' ''missing/b'')), [])"
proof -
  let ?ssh = "Read_line ''deps'' ''ssh://x/a.git 1.0''"
  let ?missing = "Read_line ''deps'' ''missing/b''"
  have o1: "Refresh_override example_system ''work'' False ?ssh [] = (Inr [], [])"
    and o2: "Refresh_override example_system ''work'' False ?missing [] = (Inr [], [])"
    by (simp_all add: Refresh_override_def)
  have u1: "URL ?ssh \<noteq> None" and u2: "URL ?missing = None"
    by (simp_all add: Read_line_ssh Read_line_missing_b)
  have c1: "CloneDependency example_system [] ?ssh ''work'' False = (Inl ''repository not found'', [])"
    by (simp add: example_system_def Read_line_ssh)
  have s2: "os_Stat example_system [] (UrlOrPath ?missing) = None"
    by (simp add: example_system_def)
  have r1: "Refresh_lib example_system ''work'' False False ?ssh []
       = (Inl (External ''repository not found''), [])"
    using Refresh_lib_UnableToFindDependency [OF o1, of False] u1 c1 by simp
  have r2: "Refresh_lib example_system ''work'' False False ?missing []
       = (Inl (UnableToFindDependency ?missing), [])"
    using Refresh_lib_UnableToFindDependency [OF o2, of False] u2 s2 by simp
  show ?thesis
    using o1 u1 c1 r1 o2 u2 s2 r2 by (intro conjI)
qed

text \<open>
  A library with a URL, local overrides not allowed, a clone that fails: the error
  returned is the one of the clone.
\<close>

theorem Refresh_lib_Clone_error_is_returned:
  "URL (Read_line ''deps'' ''ssh://x/a.git 1.0'') \<noteq> None
   \<and> Refresh_override example_system ''work'' False (Read_line ''deps'' ''ssh://x/a.git 1.0'') []
       = (Inr [], [])
   \<and> CloneDependency example_system [] (Read_line ''deps'' ''ssh://x/a.git 1.0'') ''work'' False
       = (Inl ''repository not found'', [])
   \<and> Refresh_lib example_system ''work'' False False (Read_line ''deps'' ''ssh://x/a.git 1.0'') []
       = (Inl (External ''repository not found''), [])
   \<and> Refresh example_system [Read_line ''deps'' ''ssh://x/a.git 1.0''] ''work'' False False []
       = (Some (External ''repository not found''), [])"
proof -
  let ?ssh = "Read_line ''deps'' ''ssh://x/a.git 1.0''"
  have u: "URL ?ssh \<noteq> None"
    by (simp add: Read_line_ssh)
  have o: "Refresh_override example_system ''work'' False ?ssh [] = (Inr [], [])"
    by (simp add: Refresh_override_def)
  have c: "CloneDependency example_system [] ?ssh ''work'' False = (Inl ''repository not found'', [])"
    by (simp add: example_system_def Read_line_ssh)
  have r: "Refresh_lib example_system ''work'' False False ?ssh []
       = (Inl (External ''repository not found''), [])"
    unfolding Refresh_lib_def o Refresh_fetch_def using u c by simp
  have "Refresh example_system [?ssh] ''work'' False False []
       = (Some (External ''repository not found''), [])"
    unfolding Refresh_def Refresh_loop.simps r by simp
  with u o c r show ?thesis by (intro conjI)
qed

end
